theory Spec2Isabelle
  imports Complex_Main
begin

section \<open>Floating-point values\<close>

text \<open>
  The tensors of \<^verbatim>\<open>models/flow_module_adjointmatching.py\<close> hold IEEE-754 numbers. The
  model keeps their special values, because the code divides by \<open>1 - t\<close>, multiplies by
  masks and tests \<^verbatim>\<open>torch.isnan\<close>: a value is a finite real, an infinity or NaN.
  Finite arithmetic is exact (rounding and overflow are not modelled) and the two signed
  zeros are one value, taken as positive where a sign is needed.
\<close>

datatype fl = Fin real | PInf | NInf | NaN

fun fneg :: "fl \<Rightarrow> fl" where
  "fneg (Fin a) = Fin (- a)"
| "fneg PInf = NInf"
| "fneg NInf = PInf"
| "fneg NaN = NaN"

fun fadd :: "fl \<Rightarrow> fl \<Rightarrow> fl" where
  "fadd NaN y = NaN"
| "fadd x NaN = NaN"
| "fadd (Fin a) (Fin b) = Fin (a + b)"
| "fadd PInf NInf = NaN"
| "fadd NInf PInf = NaN"
| "fadd PInf y = PInf"
| "fadd NInf y = NInf"
| "fadd (Fin a) y = y"

definition fsub :: "fl \<Rightarrow> fl \<Rightarrow> fl" where
  "fsub x y = fadd x (fneg y)"

fun fmul :: "fl \<Rightarrow> fl \<Rightarrow> fl" where
  "fmul NaN y = NaN"
| "fmul x NaN = NaN"
| "fmul (Fin a) (Fin b) = Fin (a * b)"
| "fmul (Fin a) PInf = (if a = 0 then NaN else if 0 < a then PInf else NInf)"
| "fmul (Fin a) NInf = (if a = 0 then NaN else if 0 < a then NInf else PInf)"
| "fmul PInf (Fin b) = (if b = 0 then NaN else if 0 < b then PInf else NInf)"
| "fmul NInf (Fin b) = (if b = 0 then NaN else if 0 < b then NInf else PInf)"
| "fmul PInf PInf = PInf"
| "fmul PInf NInf = NInf"
| "fmul NInf PInf = NInf"
| "fmul NInf NInf = PInf"

fun fdiv :: "fl \<Rightarrow> fl \<Rightarrow> fl" where
  "fdiv NaN y = NaN"
| "fdiv x NaN = NaN"
| "fdiv (Fin a) (Fin b) =
     (if b \<noteq> 0 then Fin (a / b)
      else if a = 0 then NaN else if 0 < a then PInf else NInf)"
| "fdiv (Fin a) y = Fin 0"
| "fdiv PInf (Fin b) = (if 0 \<le> b then PInf else NInf)"
| "fdiv NInf (Fin b) = (if 0 \<le> b then NInf else PInf)"
| "fdiv x y = NaN"

fun fsqrt :: "fl \<Rightarrow> fl" where
  "fsqrt (Fin a) = (if a < 0 then NaN else Fin (sqrt a))"
| "fsqrt PInf = PInf"
| "fsqrt NInf = NaN"
| "fsqrt NaN = NaN"

text \<open>\<open>flt x y\<close> is the comparison \<^verbatim>\<open>x < y\<close>: false as soon as one side is NaN.\<close>

fun flt :: "fl \<Rightarrow> fl \<Rightarrow> bool" where
  "flt NaN y = False"
| "flt x NaN = False"
| "flt (Fin a) (Fin b) = (a < b)"
| "flt PInf y = False"
| "flt x NInf = False"
| "flt x y = True"

text \<open>\<^verbatim>\<open>torch.clamp(x, max=c)\<close> on one element: NaN stays NaN.\<close>

definition clamp_max :: "fl \<Rightarrow> fl \<Rightarrow> fl" where
  "clamp_max c x = (if flt c x then c else x)"

definition isnan :: "fl \<Rightarrow> bool" where
  "isnan x = (x = NaN)"

definition fsum :: "fl list \<Rightarrow> fl" where
  "fsum vs = foldl fadd (Fin 0) vs"

section \<open>Tensors\<close>

text \<open>
  A tensor is a nested array of values: a 0-dimensional tensor is \<open>Sc v\<close>, a tensor of
  shape \<open>n # s\<close> is \<open>Ar\<close> of \<open>n\<close> tensors of shape \<open>s\<close>. Each torch primitive the file
  calls is one function below; a primitive that raises on mismatched shapes returns
  \<open>Inl RuntimeError\<close>.
\<close>

datatype tensor = Sc fl | Ar "tensor list"

datatype error = ValueError string | RuntimeError | IndexError

definition ebind :: "error + 'a \<Rightarrow> ('a \<Rightarrow> error + 'b) \<Rightarrow> error + 'b" where
  "ebind m k = (case m of Inl e \<Rightarrow> Inl e | Inr x \<Rightarrow> k x)"

fun elems :: "tensor \<Rightarrow> tensor list" where
  "elems (Sc v) = []"
| "elems (Ar xs) = xs"

fun val :: "tensor \<Rightarrow> fl" where
  "val (Sc v) = v"
| "val (Ar xs) = NaN"

fun shape :: "tensor \<Rightarrow> nat list" where
  "shape (Sc v) = []"
| "shape (Ar []) = [0]"
| "shape (Ar (x # xs)) = Suc (length xs) # shape x"

text \<open>\<open>has_shape s t\<close>: \<open>t\<close> is a rectangular tensor of shape \<open>s\<close>.\<close>

fun has_shape :: "nat list \<Rightarrow> tensor \<Rightarrow> bool" where
  "has_shape [] (Sc v) = True"
| "has_shape (n # s) (Ar xs) = (length xs = n \<and> list_all (has_shape s) xs)"
| "has_shape s t = False"

fun map_t :: "(fl \<Rightarrow> fl) \<Rightarrow> tensor \<Rightarrow> tensor" where
  "map_t f (Sc v) = Sc (f v)"
| "map_t f (Ar xs) = Ar (map (map_t f) xs)"

fun flatten :: "tensor \<Rightarrow> fl list" where
  "flatten (Sc v) = [v]"
| "flatten (Ar xs) = concat (map flatten xs)"

text \<open>
  Broadcasting. Shapes are aligned at their last axis; two aligned sizes are compatible
  when they are equal or one of them is 1; a missing axis counts as size 1.
\<close>

fun bshape_rev :: "nat list \<Rightarrow> nat list \<Rightarrow> nat list option" where
  "bshape_rev [] ys = Some ys"
| "bshape_rev xs [] = Some xs"
| "bshape_rev (x # xs) (y # ys) =
     (if x = y \<or> y = 1 then map_option ((#) x) (bshape_rev xs ys)
      else if x = 1 then map_option ((#) y) (bshape_rev xs ys)
      else None)"

definition broadcast_shapes :: "nat list \<Rightarrow> nat list \<Rightarrow> nat list option" where
  "broadcast_shapes s1 s2 = map_option rev (bshape_rev (rev s1) (rev s2))"

fun unsqueeze_front :: "nat \<Rightarrow> tensor \<Rightarrow> tensor" where
  "unsqueeze_front 0 t = t"
| "unsqueeze_front (Suc k) t = Ar [unsqueeze_front k t]"

text \<open>The element-wise operation on two tensors of the same number of axes.\<close>

function bcs :: "(fl \<Rightarrow> fl \<Rightarrow> fl) \<Rightarrow> tensor \<Rightarrow> tensor \<Rightarrow> tensor" where
  "bcs f (Sc a) (Sc b) = Sc (f a b)"
| "bcs f (Ar xs) (Ar ys) =
     Ar (if length xs = length ys then map (\<lambda>(x, y). bcs f x y) (zip xs ys)
         else if length xs = 1 then map (\<lambda>y. bcs f (hd xs) y) ys
         else if length ys = 1 then map (\<lambda>x. bcs f x (hd ys)) xs
         else [])"
| "bcs f (Sc a) (Ar ys) = Sc NaN"
| "bcs f (Ar xs) (Sc b) = Sc NaN"
  by pat_completeness auto
termination
proof (relation "measure (\<lambda>(f, a, b). size a + size b)", goal_cases)
  case 1
  show ?case by simp
next
  have le: "x \<in> set xs \<Longrightarrow> size x \<le> size_list size xs" for x :: tensor and xs
    by (induction xs) auto
  {
    case (2 f xs ys z x y)
    then have "x \<in> set xs" "y \<in> set ys"
      by (auto dest: set_zip_leftD set_zip_rightD)
    then show ?case using le[of x xs] le[of y ys] by simp
  next
    case (3 f xs ys y)
    then have "hd xs \<in> set xs" by (cases xs) auto
    then show ?case using le[of "hd xs" xs] le[of y ys] 3 by simp
  next
    case (4 f xs ys x)
    then have "hd ys \<in> set ys" by (cases ys) auto
    then show ?case using le[of x xs] le[of "hd ys" ys] 4 by simp
  }
qed

text \<open>An element-wise torch operation \<^verbatim>\<open>a op b\<close> with broadcasting.\<close>

definition bc :: "(fl \<Rightarrow> fl \<Rightarrow> fl) \<Rightarrow> tensor \<Rightarrow> tensor \<Rightarrow> error + tensor" where
  "bc f a b =
     (case broadcast_shapes (shape a) (shape b) of
        None \<Rightarrow> Inl RuntimeError
      | Some s \<Rightarrow>
          Inr (bcs f (unsqueeze_front (length (shape b) - length (shape a)) a)
                     (unsqueeze_front (length (shape a) - length (shape b)) b)))"

text \<open>\<^verbatim>\<open>t[..., None]\<close>: a new last axis of size 1.\<close>

fun unsqueeze_last :: "tensor \<Rightarrow> tensor" where
  "unsqueeze_last (Sc v) = Ar [Sc v]"
| "unsqueeze_last (Ar xs) = Ar (map unsqueeze_last xs)"

text \<open>
  Reductions over the last \<open>k\<close> axes (\<^verbatim>\<open>dim=-1\<close>, \<^verbatim>\<open>dim=(-1, -2)\<close>,
  \<^verbatim>\<open>dim=(-1, -2, -3)\<close>): \<open>g\<close> is applied to the values of each block of the last \<open>k\<close>
  axes. torch raises an IndexError when the tensor has fewer axes (a 0-dimensional
  tensor counts as having one).
\<close>

function reduce_axes :: "nat \<Rightarrow> (fl list \<Rightarrow> fl) \<Rightarrow> tensor \<Rightarrow> tensor" where
  "reduce_axes k g (Sc v) = Sc (g [v])"
| "reduce_axes k g (Ar xs) =
     (if length (shape (Ar xs)) \<le> k then Sc (g (flatten (Ar xs)))
      else Ar (map (reduce_axes k g) xs))"
  by pat_completeness auto
termination
proof (relation "measure (\<lambda>(k, g, t). size t)", goal_cases)
  case 1
  show ?case by simp
next
  case (2 xs k g x)
  have "x \<in> set xs \<Longrightarrow> size x \<le> size_list size xs" for x :: tensor and xs
    by (induction xs) auto
  with 2 show ?case by fastforce
qed

definition reduce_dims :: "nat \<Rightarrow> (fl list \<Rightarrow> fl) \<Rightarrow> tensor \<Rightarrow> error + tensor" where
  "reduce_dims k g t =
     (if k \<le> max (length (shape t)) 1 then Inr (reduce_axes k g t) else Inl IndexError)"

definition fmean :: "fl list \<Rightarrow> fl" where
  "fmean vs = fdiv (fsum vs) (Fin (real (length vs)))"

definition fnorm :: "fl list \<Rightarrow> fl" where
  "fnorm vs = fsqrt (fsum (map (\<lambda>v. fmul v v) vs))"

text \<open>A slice along axis 2 (\<^verbatim>\<open>t[:, :, 1:]\<close>, \<^verbatim>\<open>t[:, :, :-1]\<close>, \<^verbatim>\<open>t[:, :, :3]\<close>).\<close>

fun at_depth :: "nat \<Rightarrow> (tensor list \<Rightarrow> tensor list) \<Rightarrow> tensor \<Rightarrow> tensor" where
  "at_depth k g (Sc v) = Sc v"
| "at_depth 0 g (Ar xs) = Ar (g xs)"
| "at_depth (Suc k) g (Ar xs) = Ar (map (at_depth k g) xs)"

definition slice_axis2 :: "(tensor list \<Rightarrow> tensor list) \<Rightarrow> tensor \<Rightarrow> error + tensor" where
  "slice_axis2 g t = (if 3 \<le> length (shape t) then Inr (at_depth 2 g t) else Inl IndexError)"

text \<open>\<^verbatim>\<open>t.reshape(t.shape[0], -1, 3)\<close>.\<close>

fun chunks3 :: "fl list \<Rightarrow> tensor list option" where
  "chunks3 [] = Some []"
| "chunks3 (a # b # c # vs) = map_option ((#) (Ar [Sc a, Sc b, Sc c])) (chunks3 vs)"
| "chunks3 vs = None"

definition reshape_points :: "tensor \<Rightarrow> error + tensor" where
  "reshape_points t =
     (case t of
        Sc v \<Rightarrow> Inl IndexError
      | Ar xs \<Rightarrow>
          (if xs = [] \<or> list_ex (\<lambda>x. chunks3 (flatten x) = None) xs then Inl RuntimeError
           else Inr (Ar (map (\<lambda>x. Ar (the (chunks3 (flatten x)))) xs))))"

text \<open>\<^verbatim>\<open>torch.cdist(x, x)\<close> on a batch of point sets: all pairwise Euclidean distances.\<close>

definition fdist :: "fl list \<Rightarrow> fl list \<Rightarrow> fl" where
  "fdist p q = fnorm (map (\<lambda>(a, b). fsub a b) (zip p q))"

definition cdist :: "tensor \<Rightarrow> tensor" where
  "cdist x =
     Ar (map (\<lambda>e. Ar (map (\<lambda>p. Ar (map (\<lambda>q. Sc (fdist (flatten p) (flatten q))) (elems e)))
                        (elems e)))
             (elems x))"

text \<open>Boolean tensors hold 1 and 0, which is also what \<^verbatim>\<open>.float()\<close> makes of them.\<close>

definition fbool :: "bool \<Rightarrow> fl" where
  "fbool b = (if b then Fin 1 else Fin 0)"

definition logical_and :: "tensor \<Rightarrow> tensor \<Rightarrow> error + tensor" where
  "logical_and a b = bc (\<lambda>u v. fbool (u \<noteq> Fin 0 \<and> v \<noteq> Fin 0)) a b"

definition any_t :: "(fl \<Rightarrow> bool) \<Rightarrow> tensor \<Rightarrow> bool" where
  "any_t p t = list_ex p (flatten t)"

text \<open>\<^verbatim>\<open>torch.linspace(start, stop, n)\<close>.\<close>

definition linspace :: "real \<Rightarrow> real \<Rightarrow> nat \<Rightarrow> fl list" where
  "linspace start stop n =
     map (\<lambda>i. Fin (start + (stop - start) * real i / real (n - 1))) [0..<n]"

text \<open>
  \<^verbatim>\<open>torch.einsum('...ijm,...j->...i', g, a)\<close>: the last three axes of \<open>g\<close> are \<open>i\<close>, \<open>j\<close>,
  \<open>m\<close>, the last axis of \<open>a\<close> is \<open>j\<close>, and the axes before them are the ellipsis axes,
  which broadcast. The result sums \<open>g[i, j, m] * a[j]\<close> over \<open>j\<close> and \<open>m\<close>. The two sizes of
  \<open>j\<close> have to be equal or 1.
\<close>

definition ein_core :: "tensor \<Rightarrow> tensor \<Rightarrow> tensor" where
  "ein_core g a =
     Ar (map (\<lambda>gi. Sc (fsum (concat (map (\<lambda>(gj, aj). map (\<lambda>gm. fmul (val gm) (val aj)) (elems gj))
                (if length (elems gi) = length (elems a) then zip (elems gi) (elems a)
                 else if length (elems gi) = 1 then map (\<lambda>aj. (hd (elems gi), aj)) (elems a)
                 else map (\<lambda>gj. (gj, hd (elems a))) (elems gi))))))
             (elems g))"

fun ein_ell :: "nat \<Rightarrow> tensor \<Rightarrow> tensor \<Rightarrow> tensor" where
  "ein_ell 0 g a = ein_core g a"
| "ein_ell (Suc k) g a =
     Ar (if length (elems g) = length (elems a) then map (\<lambda>(x, y). ein_ell k x y) (zip (elems g) (elems a))
         else if length (elems g) = 1 then map (\<lambda>y. ein_ell k (hd (elems g)) y) (elems a)
         else map (\<lambda>x. ein_ell k x (hd (elems a))) (elems g))"

definition einsum_ijm_j_i :: "tensor \<Rightarrow> tensor \<Rightarrow> error + tensor" where
  "einsum_ijm_j_i g a =
     (let sg = shape g; sa = shape a; eg = length sg - 3; ea = length sa - 1 in
      if length sg < 3 \<or> length sa < 1 then Inl RuntimeError
      else if broadcast_shapes (take eg sg) (take ea sa) = None then Inl RuntimeError
      else if \<not> (sg ! (eg + 1) = sa ! ea \<or> sg ! (eg + 1) = 1 \<or> sa ! ea = 1) then Inl RuntimeError
      else Inr (ein_ell (max eg ea) (unsqueeze_front (ea - eg) g) (unsqueeze_front (eg - ea) a)))"

section \<open>The collaborators and the data of a training step\<close>

text \<open>
  \<^verbatim>\<open>model_step\<close> reads eight tensors of the noisy batch and three weights of the training
  configuration, and returns a dictionary of seven tensors.
\<close>

record batch =
  res_mask :: tensor
  diffuse_mask :: tensor
  trans_t :: tensor
  rotmats_t :: tensor
  r3_t :: tensor
  so3_t :: tensor
  trans_1 :: tensor
  rotmats_1 :: tensor

record training_cfg =
  translation_loss_weight :: real
  rotation_loss_weights :: real
  aux_loss_weight :: real

record losses =
  trans_loss :: tensor
  auxiliary_loss :: tensor
  rots_vf_loss :: tensor
  se3_vf_loss :: tensor
  diversity_reward :: tensor
  validity_reward :: tensor
  total_reward :: tensor

text \<open>
  The code the file imports and does not define is a parameter of the model: the network
  \<^verbatim>\<open>self.model\<close> (its two outputs \<^verbatim>\<open>pred_trans\<close> and \<^verbatim>\<open>pred_rotmats\<close>),
  \<^verbatim>\<open>all_atom.to_atom37\<close>, \<^verbatim>\<open>so3_utils.calc_rot_vf\<close>, and \<^verbatim>\<open>torch.autograd.grad\<close>, which is
  given the scalar function of the state that the code differentiates and the state, and
  returns the gradient (a tensor of the state's shape) or raises.
\<close>

record collab =
  model :: "batch \<Rightarrow> tensor \<times> tensor"
  to_atom37 :: "tensor \<Rightarrow> tensor \<Rightarrow> tensor"
  calc_rot_vf :: "tensor \<Rightarrow> tensor \<Rightarrow> tensor"
  autograd_grad :: "(tensor \<Rightarrow> error + tensor) \<Rightarrow> tensor \<Rightarrow> error + tensor"

type_synonym drift = "tensor \<Rightarrow> tensor \<Rightarrow> error + tensor"

section \<open>\<^verbatim>\<open>solve_adjoint_state\<close>\<close>

text \<open>\<^verbatim>\<open>curr_drift = drift(curr_x, t_curr) * mask[..., None]\<close>.\<close>

definition masked_drift :: "drift \<Rightarrow> tensor \<Rightarrow> tensor \<Rightarrow> tensor \<Rightarrow> error + tensor" where
  "masked_drift drift mask_t t_curr curr_x =
     ebind (drift curr_x t_curr) (\<lambda>d. bc fmul d (unsqueeze_last mask_t))"

text \<open>
  One pass of the loop body, on the loop's variables \<^verbatim>\<open>a_t\<close>, \<^verbatim>\<open>curr_x\<close> and
  \<^verbatim>\<open>adjoint_states\<close>. \<open>tc\<close> is the grid time \<^verbatim>\<open>t_curr\<close> as it comes out of the zip.
\<close>

definition adjoint_step ::
  "collab \<Rightarrow> drift \<Rightarrow> tensor \<Rightarrow> tensor \<Rightarrow> fl \<Rightarrow> fl \<Rightarrow> tensor \<times> tensor \<times> tensor list
     \<Rightarrow> error + tensor \<times> tensor \<times> tensor list" where
  "adjoint_step c drift t mask_t dt tc st =
     (case st of (a_t, curr_x, adjoint_states) \<Rightarrow>
        let t_curr = map_t (\<lambda>v. tc) t in
        ebind (masked_drift drift mask_t t_curr curr_x) (\<lambda>curr_drift.
        ebind (autograd_grad c
                 (\<lambda>x. ebind (masked_drift drift mask_t t_curr x)
                         (\<lambda>d. Inr (Sc (fsum (flatten d)))))
                 curr_x) (\<lambda>grad_b.
        ebind (einsum_ijm_j_i grad_b a_t) (\<lambda>jv.
        ebind (bc fsub a_t (map_t (fmul dt) jv)) (\<lambda>a1.
        ebind (bc fmul a1 (unsqueeze_last mask_t)) (\<lambda>a2.
        ebind (bc fadd curr_x (map_t (fmul dt) curr_drift)) (\<lambda>x2.
        Inr (a2, x2, adjoint_states @ [a2]))))))))"

fun adjoint_loop ::
  "collab \<Rightarrow> drift \<Rightarrow> tensor \<Rightarrow> tensor \<Rightarrow> fl \<Rightarrow> (fl \<times> fl) list \<Rightarrow> tensor \<times> tensor \<times> tensor list
     \<Rightarrow> error + tensor \<times> tensor \<times> tensor list" where
  "adjoint_loop c drift t mask_t dt [] st = Inr st"
| "adjoint_loop c drift t mask_t dt ((t_curr, t_next) # ps) st =
     ebind (adjoint_step c drift t mask_t dt t_curr st) (adjoint_loop c drift t mask_t dt ps)"

definition solve_adjoint_state ::
  "collab \<Rightarrow> drift \<Rightarrow> tensor \<Rightarrow> tensor \<Rightarrow> tensor \<Rightarrow> error + tensor" where
  "solve_adjoint_state c drift x_t t mask_t =
     ebind (bc fmul (map_t (\<lambda>v. Fin (- 1)) x_t) (unsqueeze_last mask_t)) (\<lambda>a_t.
       let timesteps = linspace 1 0 20;
           dt = fsub (timesteps ! 1) (timesteps ! 0)
       in ebind (adjoint_loop c drift t mask_t dt (zip (butlast timesteps) (tl timesteps))
                   (a_t, x_t, [a_t]))
            (\<lambda>st. case st of (a, x, adjoint_states) \<Rightarrow> Inr (last adjoint_states)))"

section \<open>\<^verbatim>\<open>model_step\<close>\<close>

subsection \<open>The reward (lines 153 to 167)\<close>

definition bond_lengths_of :: "tensor \<Rightarrow> error + tensor" where
  "bond_lengths_of pred_bb_atoms =
     ebind (slice_axis2 tl pred_bb_atoms) (\<lambda>hi.
     ebind (slice_axis2 butlast pred_bb_atoms) (\<lambda>lo.
     ebind (bc fsub hi lo) (\<lambda>d. reduce_dims 1 fnorm d)))"

definition validity_reward_of :: "tensor \<Rightarrow> error + tensor" where
  "validity_reward_of pred_bb_atoms =
     ebind (bond_lengths_of pred_bb_atoms) (\<lambda>bond_lengths.
     ebind (logical_and (map_t (\<lambda>v. fbool (flt (Fin 1) v)) bond_lengths)
                        (map_t (\<lambda>v. fbool (flt v (Fin 2))) bond_lengths)) (\<lambda>valid_bonds.
     reduce_dims 1 fmean valid_bonds))"

definition diversity_reward_of :: "tensor \<Rightarrow> error + tensor" where
  "diversity_reward_of pred_bb_atoms =
     ebind (reshape_points pred_bb_atoms) (\<lambda>flat_coords.
     reduce_dims 2 fmean (cdist flat_coords))"

definition reward_of :: "tensor \<Rightarrow> tensor \<Rightarrow> error + tensor" where
  "reward_of diversity validity =
     bc fadd (map_t (fmul (Fin 2)) diversity) (map_t (fmul (Fin 1)) validity)"

subsection \<open>The noise schedule (lines 176 to 181)\<close>

definition eta_t_of :: "tensor \<Rightarrow> error + tensor" where
  "eta_t_of r3 =
     (let alpha_t = r3;
          beta_t = map_t (fsub (Fin 1)) r3;
          alpha_dot = map_t (\<lambda>v. Fin 1) r3;
          beta_dot = map_t (\<lambda>v. fneg (Fin 1)) r3
      in ebind (bc fdiv alpha_dot alpha_t) (\<lambda>q.
         ebind (bc fmul q beta_t) (\<lambda>qb.
         ebind (bc fsub qb beta_dot) (\<lambda>inner.
         bc fmul beta_t inner))))"

definition sigma_t_of :: "tensor \<Rightarrow> error + tensor" where
  "sigma_t_of r3 = ebind (eta_t_of r3) (\<lambda>eta_t. Inr (map_t (\<lambda>v. fsqrt (fmul (Fin 2) v)) eta_t))"

subsection \<open>The translation loss (lines 184 to 197)\<close>

definition unsqueeze_last2 :: "tensor \<Rightarrow> tensor" where
  "unsqueeze_last2 t = unsqueeze_last (unsqueeze_last t)"

definition trans_drift :: "tensor \<Rightarrow> tensor \<Rightarrow> drift" where
  "trans_drift pred_trans_1 reward x t =
     ebind (bc fsub pred_trans_1 x) (\<lambda>num.
     ebind (bc fdiv num (map_t (fsub (Fin 1)) (unsqueeze_last t))) (\<lambda>q.
     bc fmul q (unsqueeze_last2 reward)))"

text \<open>
  The shape both losses share: \<^verbatim>\<open>w * torch.sum(term**2 * loss_mask[..., None], dim=(-1, -2))
  / torch.sum(loss_mask, dim=-1)\<close>, with \<^verbatim>\<open>term = vf + sigma[..., None, None] * adjoint\<close>.
\<close>

text \<open>\<^verbatim>\<open>term**2 * mask\<close>, the masked squares that the losses sum.\<close>

definition masked_square :: "tensor \<Rightarrow> tensor \<Rightarrow> error + tensor" where
  "masked_square term m = bc fmul (map_t (\<lambda>v. fmul v v) term) m"

definition adjoint_loss :: "real \<Rightarrow> tensor \<Rightarrow> tensor \<Rightarrow> tensor \<Rightarrow> tensor \<Rightarrow> error + tensor" where
  "adjoint_loss w vf sigma adjoint loss_mask =
     ebind (bc fmul (unsqueeze_last2 sigma) adjoint) (\<lambda>sa.
     ebind (bc fadd vf sa) (\<lambda>adjoint_term.
     ebind (masked_square adjoint_term (unsqueeze_last loss_mask)) (\<lambda>sq.
     ebind (reduce_dims 2 fsum sq) (\<lambda>total.
     ebind (reduce_dims 1 fsum loss_mask) (\<lambda>n.
     bc fdiv (map_t (fmul (Fin w)) total) n)))))"

definition trans_loss_of ::
  "training_cfg \<Rightarrow> tensor \<Rightarrow> tensor \<Rightarrow> tensor \<Rightarrow> tensor \<Rightarrow> tensor \<Rightarrow> tensor \<Rightarrow> tensor
     \<Rightarrow> error + tensor" where
  "trans_loss_of cfg pred_trans_1 reward trans_t' r3_t' sigma_t trans_adjoint loss_mask =
     ebind (trans_drift pred_trans_1 reward trans_t' r3_t') (\<lambda>trans_vf.
     ebind (adjoint_loss (translation_loss_weight cfg) trans_vf sigma_t trans_adjoint loss_mask)
       (\<lambda>l. Inr (map_t (clamp_max (Fin 5)) l)))"

subsection \<open>The rotation loss (lines 199 to 212)\<close>

definition rot_drift :: "collab \<Rightarrow> tensor \<Rightarrow> tensor \<Rightarrow> drift" where
  "rot_drift c pred_rotmats_1 reward r t =
     bc fmul (calc_rot_vf c r pred_rotmats_1) (unsqueeze_last2 reward)"

definition rots_vf_loss_of ::
  "training_cfg \<Rightarrow> collab \<Rightarrow> tensor \<Rightarrow> tensor \<Rightarrow> tensor \<Rightarrow> tensor \<Rightarrow> tensor \<Rightarrow> tensor
     \<Rightarrow> error + tensor" where
  "rots_vf_loss_of cfg c pred_rotmats_1 reward rotmats_t' so3_t' rot_adjoint loss_mask =
     ebind (rot_drift c pred_rotmats_1 reward rotmats_t' so3_t') (\<lambda>rot_vf.
       let rot_sigma_t = map_t (\<lambda>v. fsqrt (fmul (Fin 2) v)) so3_t'
       in adjoint_loss (rotation_loss_weights cfg) rot_vf rot_sigma_t rot_adjoint loss_mask)"

subsection \<open>The auxiliary loss (lines 215 to 229)\<close>

text \<open>\<^verbatim>\<open>t[0, 0]\<close>, and the truth value Python takes of a tensor in an \<^verbatim>\<open>if\<close>.\<close>

definition index00 :: "tensor \<Rightarrow> error + tensor" where
  "index00 t = (case t of Ar (Ar (x # xs) # ys) \<Rightarrow> Inr x | _ \<Rightarrow> Inl IndexError)"

definition truth :: "tensor \<Rightarrow> error + bool" where
  "truth t = (case flatten t of [v] \<Rightarrow> Inr (v \<noteq> Fin 0) | _ \<Rightarrow> Inl RuntimeError)"

text \<open>
  The Python number \<^verbatim>\<open>0.0\<close> the variable starts with is the 0-dimensional tensor
  \<open>Sc (Fin 0)\<close>: it adds to a tensor the same way.
\<close>

definition bb_atom_loss_of :: "tensor \<Rightarrow> tensor \<Rightarrow> tensor \<Rightarrow> error + tensor" where
  "bb_atom_loss_of gt_bb_atoms pred_bb_atoms loss_mask =
     ebind (reduce_dims 1 fsum loss_mask) (\<lambda>n.
       let loss_denom = map_t (\<lambda>v. fmul v (Fin 3)) n in
       ebind (bc fsub gt_bb_atoms pred_bb_atoms) (\<lambda>d.
       ebind (masked_square d (unsqueeze_last2 loss_mask)) (\<lambda>sq.
       ebind (reduce_dims 3 fsum sq) (\<lambda>total.
       bc fdiv total loss_denom))))"

definition auxiliary_loss_of ::
  "training_cfg \<Rightarrow> collab \<Rightarrow> batch \<Rightarrow> tensor \<Rightarrow> tensor \<Rightarrow> tensor \<Rightarrow> error + tensor" where
  "auxiliary_loss_of cfg c b pred_bb_atoms reward loss_mask =
     (if 0 < aux_loss_weight cfg then
        ebind (index00 (r3_t b)) (\<lambda>t00.
        ebind (truth (map_t (\<lambda>v. fbool (flt (Fin (1 / 2)) v)) t00)) (\<lambda>late.
          if late then
            ebind (slice_axis2 (take 3) (to_atom37 c (trans_1 b) (rotmats_1 b))) (\<lambda>gt_bb_atoms.
            ebind (bb_atom_loss_of gt_bb_atoms pred_bb_atoms loss_mask) (\<lambda>bb_atom_loss.
            ebind (bc fmul (map_t (\<lambda>v. fmul v (Fin (aux_loss_weight cfg))) bb_atom_loss) reward)
              (\<lambda>a. Inr (map_t (clamp_max (Fin 5)) a))))
          else Inr (Sc (Fin 0))))
      else Inr (Sc (Fin 0)))"

subsection \<open>The total, its check and the returned record (lines 231 to 244)\<close>

definition checked_losses ::
  "tensor \<Rightarrow> tensor \<Rightarrow> tensor \<Rightarrow> tensor \<Rightarrow> tensor \<Rightarrow> tensor \<Rightarrow> error + losses" where
  "checked_losses trans_l rots_l aux_l diversity validity reward =
     ebind (bc fadd trans_l rots_l) (\<lambda>s.
     ebind (bc fadd s aux_l) (\<lambda>se3.
       if any_t isnan se3 then Inl (ValueError ''NaN loss encountered'')
       else Inr \<lparr>trans_loss = trans_l, auxiliary_loss = aux_l, rots_vf_loss = rots_l,
                 se3_vf_loss = se3, diversity_reward = diversity,
                 validity_reward = validity, total_reward = reward\<rparr>))"

subsection \<open>The whole step\<close>

definition model_step :: "training_cfg \<Rightarrow> collab \<Rightarrow> batch \<Rightarrow> error + losses" where
  "model_step cfg c b =
     ebind (bc fmul (res_mask b) (diffuse_mask b)) (\<lambda>loss_mask.
     ebind (reduce_dims 1 fsum loss_mask) (\<lambda>n.
       if any_t (\<lambda>v. flt v (Fin 1)) n then Inl (ValueError ''Empty batch encountered'')
       else
         (case model c b of (pred_trans_1, pred_rotmats_1) \<Rightarrow>
            ebind (slice_axis2 (take 3) (to_atom37 c pred_trans_1 pred_rotmats_1)) (\<lambda>pred_bb_atoms.
            ebind (validity_reward_of pred_bb_atoms) (\<lambda>validity.
            ebind (diversity_reward_of pred_bb_atoms) (\<lambda>diversity.
            ebind (reward_of diversity validity) (\<lambda>reward.
            ebind (sigma_t_of (r3_t b)) (\<lambda>sigma_t.
            ebind (solve_adjoint_state c (trans_drift pred_trans_1 reward)
                     (trans_t b) (r3_t b) loss_mask) (\<lambda>trans_adjoint.
            ebind (trans_loss_of cfg pred_trans_1 reward (trans_t b) (r3_t b) sigma_t
                     trans_adjoint loss_mask) (\<lambda>trans_l.
            ebind (solve_adjoint_state c (rot_drift c pred_rotmats_1 reward)
                     (rotmats_t b) (so3_t b) loss_mask) (\<lambda>rot_adjoint.
            ebind (rots_vf_loss_of cfg c pred_rotmats_1 reward (rotmats_t b) (so3_t b)
                     rot_adjoint loss_mask) (\<lambda>rots_l.
            ebind (auxiliary_loss_of cfg c b pred_bb_atoms reward loss_mask) (\<lambda>aux_l.
              checked_losses trans_l rots_l aux_l diversity validity reward)))))))))))))"

section \<open>Tensors given by index functions\<close>

text \<open>
  The statements below speak about tensors through their entries: \<open>tab s g\<close> is the tensor
  of shape \<open>s\<close> whose entry at the index list \<open>js\<close> is \<open>g js\<close>, and \<open>entry t js\<close> reads an
  entry back. Every rectangular tensor is such a table (\<open>tab_entry\<close> below), and \<open>rt s F\<close>
  is the table of finite values.
\<close>


fun tab :: "nat list \<Rightarrow> (nat list \<Rightarrow> fl) \<Rightarrow> tensor" where
  "tab [] g = Sc (g [])"
| "tab (n # s) g = Ar (map (\<lambda>i. tab s (\<lambda>js. g (i # js))) [0..<n])"

fun entry :: "tensor \<Rightarrow> nat list \<Rightarrow> fl" where
  "entry (Sc v) [] = v"
| "entry (Sc v) (i # js) = NaN"
| "entry (Ar xs) [] = NaN"
| "entry (Ar xs) (i # js) = (if i < length xs then entry (xs ! i) js else NaN)"

definition compat :: "nat \<Rightarrow> nat \<Rightarrow> bool" where
  "compat x y = (x = y \<or> x = 1 \<or> y = 1)"

definition bdim :: "nat \<Rightarrow> nat \<Rightarrow> nat" where
  "bdim x y = (if x = 1 then y else x)"

definition clip :: "nat list \<Rightarrow> nat list \<Rightarrow> nat list" where
  "clip s js = map (\<lambda>(n, i). if i < n then i else 0) (zip s js)"

fun all_idx :: "nat list \<Rightarrow> nat list list" where
  "all_idx [] = [[]]"
| "all_idx (n # s) = concat (map (\<lambda>i. map ((#) i) (all_idx s)) [0..<n])"

definition rt :: "nat list \<Rightarrow> (nat list \<Rightarrow> real) \<Rightarrow> tensor" where
  "rt s F = tab s (\<lambda>js. Fin (F js))"

section \<open>The reward in the words of the specification\<close>

text \<open>
  The quantities the statements about the reward are written in. For the atoms \<open>g\<close> of a
  batch (index lists \<open>[example, residue, atom, coordinate]\<close>): the points of one example,
  the mean of all pairwise distances of a list of points, the length of the \<open>k\<close>-th bond
  of the residue \<open>js = [example, residue]\<close>, and the test of a bond length against the open
  interval from 1 to 2.
\<close>

definition atom_points :: "nat \<Rightarrow> (nat list \<Rightarrow> fl) \<Rightarrow> fl list list" where
  "atom_points N h = map (\<lambda>js. [h (js @ [0]), h (js @ [1]), h (js @ [2])]) (all_idx [N, 3])"

definition pairwise_mean :: "fl list list \<Rightarrow> fl" where
  "pairwise_mean pts = fmean (concat (map (\<lambda>p. map (fdist p) pts) pts))"

definition bond_length :: "(nat list \<Rightarrow> fl) \<Rightarrow> nat list \<Rightarrow> nat \<Rightarrow> fl" where
  "bond_length g js k = fnorm (map (\<lambda>c. fsub (g (js @ [Suc k, c])) (g (js @ [k, c]))) [0, 1, 2])"

definition bond_valid :: "fl \<Rightarrow> fl" where
  "bond_valid v = fbool (flt (Fin 1) v \<and> flt v (Fin 2))"

text \<open>
  The same for finite coordinates, in real numbers: the Euclidean distance of two points,
  the mean pairwise distance, and the points of one example.
\<close>

definition dist3 :: "real list \<Rightarrow> real list \<Rightarrow> real" where
  "dist3 p q = sqrt (sum_list (map (\<lambda>(a, b). (a - b) * (a - b)) (zip p q)))"

definition pmean :: "real list list \<Rightarrow> real" where
  "pmean pts = sum_list (concat (map (\<lambda>p. map (dist3 p) pts) pts)) / real (length pts * length pts)"

definition rpoints :: "nat \<Rightarrow> (nat list \<Rightarrow> real) \<Rightarrow> real list list" where
  "rpoints N x = map (\<lambda>js. [x (js @ [0]), x (js @ [1]), x (js @ [2])]) (all_idx [N, 3])"

text \<open>
  The index that broadcasting reads on an axis of size \<open>n\<close>: the index itself, or 0 when the
  axis has size 1 and is stretched.
\<close>

definition wrap :: "nat \<Rightarrow> nat \<Rightarrow> nat" where
  "wrap n j = (if j < n then j else 0)"

text \<open>
  The entries of the reward tensor that \<^verbatim>\<open>2.0 * diversity_reward + 1.0 * validity_reward\<close>
  yields for a diversity \<open>d\<close> of shape \<open>[B]\<close> and a validity \<open>v\<close> of shape \<open>[B, N]\<close>: torch
  aligns the one axis of \<open>d\<close> with the last axis of \<open>v\<close>.
\<close>

definition reward_entries ::
  "nat \<Rightarrow> nat \<Rightarrow> (nat list \<Rightarrow> real) \<Rightarrow> (nat list \<Rightarrow> real) \<Rightarrow> nat list \<Rightarrow> real" where
  "reward_entries B N d v js = 2 * d [wrap B (js ! 1)] + 1 * v [js ! 0, wrap N (js ! 1)]"


section \<open>Inputs for the examples\<close>

text \<open>A training configuration with all three weights 1.\<close>

definition cfg0 :: training_cfg where
  "cfg0 = \<lparr>translation_loss_weight = 1, rotation_loss_weights = 1, aux_loss_weight = 1\<rparr>"

text \<open>
  The drift that is zero everywhere, the gradient of a function that does not depend on
  the state, and collaborators that return their inputs, with that gradient.
\<close>

definition zero_drift :: drift where
  "zero_drift x t = Inr (map_t (\<lambda>v. Fin 0) x)"

definition zero_grad :: "(tensor \<Rightarrow> error + tensor) \<Rightarrow> tensor \<Rightarrow> error + tensor" where
  "zero_grad f x = Inr (map_t (\<lambda>v. Fin 0) x)"

definition c_zero :: collab where
  "c_zero = \<lparr>model = (\<lambda>b. (trans_1 b, rotmats_1 b)), to_atom37 = (\<lambda>t r. t),
             calc_rot_vf = (\<lambda>r p. r), autograd_grad = zero_grad\<rparr>"


definition cfg2 :: training_cfg where
  "cfg2 = \<lparr>translation_loss_weight = 2, rotation_loss_weights = 1, aux_loss_weight = 2\<rparr>"

text \<open>
  The backbone regression loss of example \<open>b\<close> in the words of the specification: the squared
  coordinate differences of ground truth \<open>G\<close> and prediction \<open>P\<close>, masked, summed over
  residues, atoms and coordinates, per valid atom. Then a batch of \<open>B\<close> examples with one
  residue each, translation times \<open>t\<close> and ground-truth atoms at 1.
\<close>

definition bb_regression ::
  "nat \<Rightarrow> nat \<Rightarrow> (nat list \<Rightarrow> real) \<Rightarrow> (nat list \<Rightarrow> real) \<Rightarrow> (nat list \<Rightarrow> real) \<Rightarrow> real" where
  "bb_regression N b G P m =
     (\<Sum>n<N. \<Sum>a<3. \<Sum>c<3. (G [b, n, a, c] - P [b, n, a, c])\<^sup>2 * m [b, n])
     / ((\<Sum>n<N. m [b, n]) * 3)"

definition atoms_batch :: "nat \<Rightarrow> (nat list \<Rightarrow> real) \<Rightarrow> batch" where
  "atoms_batch B t =
     \<lparr>res_mask = rt [B, 1] (\<lambda>js. 1), diffuse_mask = rt [B, 1] (\<lambda>js. 1),
      trans_t = rt [B, 1, 3] (\<lambda>js. 0), rotmats_t = rt [B, 1, 3, 3] (\<lambda>js. 0),
      r3_t = rt [B, 1] t, so3_t = rt [B, 1] t,
      trans_1 = rt [B, 1, 3, 3] (\<lambda>js. 1), rotmats_1 = rt [B, 1, 3, 3] (\<lambda>js. 0)\<rparr>"




text \<open>
  A batch of one example with one residue at the origin, at translation time \<open>2/3\<close> and
  rotation time \<open>1/2\<close>; collaborators that return the reference translation and rotation
  as the prediction, the three rows of the rotation as the atoms, the first rotation as the
  rotation vector field and a zero gradient; and the shadow state of NaNs that the
  translation solver reaches on it after its first step, at grid time 1, where the drift
  divides by \<open>1 - t = 0\<close>.
\<close>

definition c_rows :: collab where
  "c_rows = \<lparr>model = (\<lambda>b. (trans_1 b, rotmats_1 b)), to_atom37 = (\<lambda>t r. r),
              calc_rot_vf = (\<lambda>r p. r), autograd_grad = zero_grad\<rparr>"

definition one_residue :: batch where
  "one_residue =
     \<lparr>res_mask = rt [1, 1] (\<lambda>js. 1), diffuse_mask = rt [1, 1] (\<lambda>js. 1),
      trans_t = rt [1, 1, 3] (\<lambda>js. 0), rotmats_t = rt [1, 1, 3, 3] (\<lambda>js. 0),
      r3_t = rt [1, 1] (\<lambda>js. 2 / 3), so3_t = rt [1, 1] (\<lambda>js. 1 / 2),
      trans_1 = rt [1, 1, 3] (\<lambda>js. 0), rotmats_1 = rt [1, 1, 3, 3] (\<lambda>js. 0)\<rparr>"

definition nan_state :: tensor where
  "nan_state = Ar [Ar [Ar [Ar [Sc NaN, Sc NaN, Sc NaN]]]]"






definition two_residues :: batch where
  "two_residues =
     \<lparr>res_mask = rt [1, 2] (\<lambda>js. 1), diffuse_mask = rt [1, 2] (\<lambda>js. 1),
      trans_t = rt [1, 2, 3] (\<lambda>js. 0), rotmats_t = rt [1, 2, 3, 3] (\<lambda>js. 0),
      r3_t = rt [1, 1] (\<lambda>js. 9 / 10), so3_t = rt [1, 1] (\<lambda>js. 9 / 10),
      trans_1 = rt [1, 2, 3] (\<lambda>js. 0), rotmats_1 = rt [1, 2, 3, 3] (\<lambda>js. 1)\<rparr>"

definition half_valid :: "nat list \<Rightarrow> real" where
  "half_valid js = real (js ! 1) / 2"


section \<open>Calculating with tables\<close>


lemma has_shape_tab: "has_shape s (tab s g)"
  by (induction s arbitrary: g) (auto simp: list_all_iff)

lemma tab_entry: "has_shape s t \<Longrightarrow> tab s (entry t) = t"
proof (induction s t rule: has_shape.induct)
  case (1 v)
  then show ?case by simp
next
  case (2 n s xs)
  have "map (\<lambda>i. tab s (\<lambda>js. entry (Ar xs) (i # js))) [0..<n] = map (\<lambda>i. xs ! i) [0..<n]"
  proof (rule map_cong[OF refl])
    fix i assume "i \<in> set [0..<n]"
    then have i: "i < length xs" using 2 by simp
    then have "has_shape s (xs ! i)" using 2 by (simp add: list_all_length)
    then have "tab s (entry (xs ! i)) = xs ! i" using 2 i by simp
    moreover have "(\<lambda>js. entry (Ar xs) (i # js)) = entry (xs ! i)" using i by auto
    ultimately show "tab s (\<lambda>js. entry (Ar xs) (i # js)) = xs ! i" by simp
  qed
  also have "\<dots> = xs" using 2(2) map_nth[of xs] by auto
  finally show ?case by simp
qed auto

lemma shape_tab: "0 \<notin> set s \<Longrightarrow> shape (tab s g) = s"
proof (induction s arbitrary: g)
  case Nil
  then show ?case by simp
next
  case (Cons n s)
  then obtain m where n: "n = Suc m" by (cases n) auto
  show ?case using Cons by (simp add: n upt_conv_Cons del: upt_Suc)
qed

lemma map_t_tab: "map_t f (tab s g) = tab s (\<lambda>js. f (g js))"
  by (induction s arbitrary: g) auto

lemma tab_cong: "(\<And>js. list_all2 (<) js s \<Longrightarrow> g js = h js) \<Longrightarrow> tab s g = tab s h"
proof (induction s arbitrary: g h)
  case Nil
  then show ?case by simp
next
  case (Cons n s)
  show ?case using Cons.prems by (auto intro!: Cons.IH)
qed

lemma unsqueeze_last_tab: "unsqueeze_last (tab s g) = tab (s @ [1]) (\<lambda>js. g (butlast js))"
proof (induction s arbitrary: g)
  case Nil
  then show ?case by simp
next
  case (Cons n s)
  have "tab (s @ [1]) (\<lambda>js. g (butlast (i # js))) = tab (s @ [1]) (\<lambda>js. g (i # butlast js))" for i
    by (rule tab_cong) (auto simp: list_all2_Cons2 list_all2_append2)
  then show ?case using Cons by simp
qed

lemma unsqueeze_front_tab: "unsqueeze_front k (tab s g) = tab (replicate k 1 @ s) (\<lambda>js. g (drop k js))"
  by (induction k arbitrary: g) auto

lemma bcs_tab:
  "list_all2 compat s1 s2 \<Longrightarrow>
   bcs f (tab s1 g) (tab s2 h) = tab (map (\<lambda>(x, y). bdim x y) (zip s1 s2)) (\<lambda>js. f (g (clip s1 js)) (h (clip s2 js)))"
proof (induction s1 s2 arbitrary: g h rule: list_all2_induct)
  case Nil
  then show ?case by (simp add: clip_def)
next
  case (Cons x s1 y s2)
  let ?G = "\<lambda>i js. f (g (i # clip s1 js)) (h (i # clip s2 js))"
  have IH: "bcs f (tab s1 (\<lambda>js. g (a # js))) (tab s2 (\<lambda>js. h (b # js)))
         = tab (map (\<lambda>(x, y). bdim x y) (zip s1 s2)) (\<lambda>js. f (g (a # clip s1 js)) (h (b # clip s2 js)))" for a b
    using Cons.IH[of "\<lambda>js. g (a # js)" "\<lambda>js. h (b # js)"] .
  consider (eq) "x = y" | (l1) "x = 1" "y \<noteq> 1" | (r1) "y = 1" "x \<noteq> 1"
    using Cons.hyps(1) by (auto simp: compat_def)
  then show ?case
  proof cases
    case eq
    have z: "zip (map F [0..<y]) (map G [0..<y]) = map (\<lambda>i. (F i, G i)) [0..<y]" for F G :: "nat \<Rightarrow> tensor"
      by (induction y) auto
    show ?thesis using eq by (simp add: z IH bdim_def clip_def o_def cong: map_cong)
  next
    case l1
    then show ?thesis by (simp add: IH bdim_def clip_def o_def upt_conv_Cons cong: map_cong)
  next
    case r1
    then show ?thesis by (simp add: IH bdim_def clip_def o_def cong: map_cong)
  qed
qed


lemma bshape_rev_same:
  "length xs = length ys \<Longrightarrow>
   bshape_rev xs ys = (if list_all2 compat xs ys then Some (map (\<lambda>(x, y). bdim x y) (zip xs ys)) else None)"
  by (induction xs ys rule: list_induct2) (auto simp: compat_def bdim_def)

lemma bshape_rev_ones_left: "bshape_rev (replicate (length ys) 1) ys = Some ys"
  by (induction ys) auto

lemma bshape_rev_ones_right: "bshape_rev xs (replicate (length xs) 1) = Some xs"
  by (induction xs) auto

lemma bshape_rev_pad:
  "bshape_rev xs ys =
   bshape_rev (xs @ replicate (length ys - length xs) 1) (ys @ replicate (length xs - length ys) 1)"
proof (induction xs ys rule: bshape_rev.induct)
  case (1 ys)
  then show ?case using bshape_rev_ones_left[of ys] by simp
next
  case (2 x xs)
  then show ?case using bshape_rev_ones_right[of "x # xs"] by simp
next
  case (3 x xs y ys)
  then show ?case by simp
qed

lemma broadcast_shapes_pad:
  "broadcast_shapes s1 s2 =
   (let p1 = replicate (length s2 - length s1) 1 @ s1;
        p2 = replicate (length s1 - length s2) 1 @ s2
    in if list_all2 compat p1 p2 then Some (map (\<lambda>(x, y). bdim x y) (zip p1 p2)) else None)"
proof -
  let ?p1 = "replicate (length s2 - length s1) 1 @ s1"
  let ?p2 = "replicate (length s1 - length s2) 1 @ s2"
  have len: "length (rev ?p1) = length (rev ?p2)" by simp
  have "bshape_rev (rev s1) (rev s2) = bshape_rev (rev ?p1) (rev ?p2)"
    using bshape_rev_pad[of "rev s1" "rev s2"] by simp
  also have "\<dots> = (if list_all2 compat (rev ?p1) (rev ?p2)
                     then Some (map (\<lambda>(x, y). bdim x y) (zip (rev ?p1) (rev ?p2))) else None)"
    by (rule bshape_rev_same[OF len])
  finally have "bshape_rev (rev s1) (rev s2) =
      (if list_all2 compat ?p1 ?p2 then Some (rev (map (\<lambda>(x, y). bdim x y) (zip ?p1 ?p2))) else None)"
    using len by (simp add: zip_rev rev_map del: rev_append rev_replicate)
  then show ?thesis by (simp add: broadcast_shapes_def Let_def)
qed

lemma bc_tab:
  assumes "0 \<notin> set s1" "0 \<notin> set s2"
  shows "bc f (tab s1 g) (tab s2 h) =
   (let k1 = length s2 - length s1; k2 = length s1 - length s2;
        p1 = replicate k1 1 @ s1; p2 = replicate k2 1 @ s2
    in if list_all2 compat p1 p2
       then Inr (tab (map (\<lambda>(x, y). bdim x y) (zip p1 p2))
                   (\<lambda>js. f (g (drop k1 (clip p1 js))) (h (drop k2 (clip p2 js)))))
       else Inl RuntimeError)"
  using assms
  by (simp add: bc_def shape_tab broadcast_shapes_pad Let_def unsqueeze_front_tab bcs_tab)


lemma flatten_tab: "flatten (tab s g) = map g (all_idx s)"
proof (induction s arbitrary: g)
  case Nil
  then show ?case by simp
next
  case (Cons n s)
  then show ?case by (simp add: o_def map_concat)
qed

lemma reduce_axes_tab:
  "0 \<notin> set s \<Longrightarrow> k \<le> length s \<Longrightarrow>
   reduce_axes k r (tab s g) =
   tab (take (length s - k) s) (\<lambda>js. r (map (\<lambda>ks. g (js @ ks)) (all_idx (drop (length s - k) s))))"
proof (induction s arbitrary: g)
  case Nil
  then show ?case by simp
next
  case (Cons n s)
  have sh: "shape (Ar (map (\<lambda>i. tab s (\<lambda>js. g (i # js))) [0..<n])) = n # s"
    using shape_tab[of "n # s" g] Cons.prems by simp
  show ?case
  proof (cases "k \<le> length s")
    case True
    then have "Suc (length s) - k = Suc (length s - k)" by simp
    then show ?thesis using True Cons by (simp add: sh o_def)
  next
    case False
    then have k: "k = Suc (length s)" using Cons.prems by simp
    show ?thesis using flatten_tab[of "n # s" g] by (simp add: sh k)
  qed
qed

lemma reduce_dims_tab:
  "0 \<notin> set s \<Longrightarrow> k \<le> length s \<Longrightarrow>
   reduce_dims k r (tab s g) =
   Inr (tab (take (length s - k) s) (\<lambda>js. r (map (\<lambda>ks. g (js @ ks)) (all_idx (drop (length s - k) s)))))"
  by (simp add: reduce_dims_def shape_tab reduce_axes_tab)

lemma foldl_fadd_Fin: "foldl fadd (Fin a) (map (\<lambda>x. Fin (F x)) xs) = Fin (a + sum_list (map F xs))"
  by (induction xs arbitrary: a) (auto simp: algebra_simps)

lemma fsum_Fin: "fsum (map (\<lambda>x. Fin (F x)) xs) = Fin (sum_list (map F xs))"
  using foldl_fadd_Fin[of 0 F xs] by (simp add: fsum_def)

lemma fsum_Fin_cong:
  "(\<And>x. x \<in> set xs \<Longrightarrow> G x = Fin (F x)) \<Longrightarrow> fsum (map G xs) = Fin (sum_list (map F xs))"
  using fsum_Fin[of F xs] by (metis (mono_tags, lifting) map_eq_conv)

lemma sum_list_all_idx1: "sum_list (map F (all_idx [n])) = (\<Sum>i<n. F [i])"
proof -
  have "all_idx [n] = map (\<lambda>i. [i]) [0..<n]" by (induction n) auto
  then show ?thesis by (simp add: o_def interv_sum_list_conv_sum_set_nat atLeast0LessThan)
qed

lemma all_idx_mem: "js \<in> set (all_idx s) \<longleftrightarrow> list_all2 (<) js s"
proof (induction s arbitrary: js)
  case Nil
  then show ?case by auto
next
  case (Cons n s)
  show ?case by (cases js) (force simp: Cons)+
qed

lemma sum_list_all_idx_Cons:
  "sum_list (map F (all_idx (n # s))) = (\<Sum>i<n. sum_list (map (\<lambda>ks. F (i # ks)) (all_idx s)))"
proof -
  have "sum_list (map F (all_idx (n # s))) = sum_list (map (\<lambda>i. sum_list (map (\<lambda>ks. F (i # ks)) (all_idx s))) [0..<n])"
    by (induction n) (simp_all add: o_def)
  then show ?thesis by (simp add: interv_sum_list_conv_sum_set_nat atLeast0LessThan)
qed


lemma ebind_Inr [simp]: "ebind (Inr x) k = k x"
  by (simp add: ebind_def)

lemma ebind_Inl [simp]: "ebind (Inl e) k = Inl e"
  by (simp add: ebind_def)

lemma bdim_simps [simp]: "bdim x 1 = x" "bdim 1 y = y" "bdim x x = x" "bdim x (Suc 0) = x" "bdim (Suc 0) y = y"
  by (auto simp: bdim_def)

lemma compat_simps [simp]: "compat x 1" "compat 1 y" "compat x x" "compat x (Suc 0)" "compat (Suc 0) y"
  by (auto simp: compat_def)

lemma rt_cong: "(\<And>js. list_all2 (<) js s \<Longrightarrow> F js = G js) \<Longrightarrow> rt s F = rt s G"
  unfolding rt_def by (rule tab_cong) simp

declare tab.simps [simp del]

declare all_idx.simps [simp del]

lemmas eval_tensor = bc_def broadcast_shapes_def ebind_def Let_def reduce_dims_def

lemma clip_id: "list_all2 (<) js s \<Longrightarrow> clip s js = js"
proof (induction s arbitrary: js)
  case Nil
  then show ?case by (simp add: clip_def)
next
  case (Cons n s)
  then show ?case by (cases js) (auto simp: clip_def)
qed

lemma map2_bdim_same: "map (\<lambda>(x, y). bdim x y) (zip s s) = s"
  by (induction s) auto

lemma bc_tab_same:
  assumes "0 \<notin> set s"
  shows "bc f (tab s g) (tab s h) = Inr (tab s (\<lambda>js. f (g js) (h js)))"
proof -
  have "list_all2 compat s s" by (simp add: list_all2_same)
  moreover have "tab s (\<lambda>js. f (g (clip s js)) (h (clip s js))) = tab s (\<lambda>js. f (g js) (h js))"
    by (rule tab_cong) (simp add: clip_id)
  ultimately show ?thesis using assms by (simp add: bc_tab map2_bdim_same)
qed

lemma any_t_tab: "any_t p (tab s g) = (\<exists>js. list_all2 (<) js s \<and> p (g js))"
  by (auto simp: any_t_def flatten_tab list_ex_iff all_idx_mem)

lemma fsum_all_idx1:
  "(\<And>i. i < n \<Longrightarrow> G [i] = Fin (F i)) \<Longrightarrow> fsum (map G (all_idx [n])) = Fin (\<Sum>i<n. F i)"
proof -
  assume a: "\<And>i. i < n \<Longrightarrow> G [i] = Fin (F i)"
  have "fsum (map G (all_idx [n])) = Fin (sum_list (map (\<lambda>js. F (hd js)) (all_idx [n])))"
    by (rule fsum_Fin_cong) (auto simp: all_idx_mem list_all2_Cons2 a)
  then show ?thesis by (simp add: sum_list_all_idx1)
qed

lemma bc_rt_same:
  "0 \<notin> set s \<Longrightarrow> (\<And>a b. f (Fin a) (Fin b) = Fin (F a b)) \<Longrightarrow>
   bc f (rt s g) (rt s h) = Inr (rt s (\<lambda>js. F (g js) (h js)))"
  by (simp add: rt_def bc_tab_same)

lemma sum_last_rt:
  assumes "0 < B" "0 < N"
  shows "reduce_dims (Suc 0) fsum (rt [B, N] m) = Inr (rt [B] (\<lambda>js. \<Sum>n<N. m (js @ [n])))"
proof -
  have "tab [B] (\<lambda>js. fsum (map (\<lambda>ks. Fin (m (js @ ks))) (all_idx [N])))
      = tab [B] (\<lambda>js. Fin (\<Sum>n<N. m (js @ [n])))"
    by (rule tab_cong) (simp add: fsum_all_idx1)
  then show ?thesis using assms by (simp add: rt_def reduce_dims_tab)
qed

lemma sum_last_rt1:
  assumes "0 < B" "0 < N"
  shows "reduce_dims 1 fsum (rt [B, N] m) = Inr (rt [B] (\<lambda>js. \<Sum>n<N. m (js @ [n])))"
  using sum_last_rt[OF assms] by simp

lemma ebind_eq_Inr: "ebind m k = Inr y \<longleftrightarrow> (\<exists>x. m = Inr x \<and> k x = Inr y)"
  by (cases m) (auto simp: ebind_def)

lemma checked_losses_Inr:
  "checked_losses trans_l rots_l aux_l d v w = Inr r \<Longrightarrow>
   \<not> any_t isnan (se3_vf_loss r) \<and>
   (\<exists>s. bc fadd trans_l rots_l = Inr s \<and> bc fadd s aux_l = Inr (se3_vf_loss r))"
  by (auto simp: checked_losses_def ebind_eq_Inr split: if_splits)

lemma model_step_Inr:
  assumes "model_step cfg c b = Inr r"
  obtains loss_mask n pred_trans_1 pred_rotmats_1 pred_bb_atoms validity diversity reward
    sigma_t trans_adjoint trans_l rot_adjoint rots_l aux_l
  where "bc fmul (res_mask b) (diffuse_mask b) = Inr loss_mask"
    and "reduce_dims 1 fsum loss_mask = Inr n"
    and "\<not> any_t (\<lambda>v. flt v (Fin 1)) n"
    and "model c b = (pred_trans_1, pred_rotmats_1)"
    and "slice_axis2 (take 3) (to_atom37 c pred_trans_1 pred_rotmats_1) = Inr pred_bb_atoms"
    and "validity_reward_of pred_bb_atoms = Inr validity"
    and "diversity_reward_of pred_bb_atoms = Inr diversity"
    and "reward_of diversity validity = Inr reward"
    and "sigma_t_of (r3_t b) = Inr sigma_t"
    and "solve_adjoint_state c (trans_drift pred_trans_1 reward) (trans_t b) (r3_t b) loss_mask
         = Inr trans_adjoint"
    and "trans_loss_of cfg pred_trans_1 reward (trans_t b) (r3_t b) sigma_t trans_adjoint loss_mask
         = Inr trans_l"
    and "solve_adjoint_state c (rot_drift c pred_rotmats_1 reward) (rotmats_t b) (so3_t b) loss_mask
         = Inr rot_adjoint"
    and "rots_vf_loss_of cfg c pred_rotmats_1 reward (rotmats_t b) (so3_t b) rot_adjoint loss_mask
         = Inr rots_l"
    and "auxiliary_loss_of cfg c b pred_bb_atoms reward loss_mask = Inr aux_l"
    and "checked_losses trans_l rots_l aux_l diversity validity reward = Inr r"
  using assms
  by (auto simp: model_step_def ebind_eq_Inr split: if_splits prod.splits)

lemma tl_map_upt: "tl (map F [0..<a]) = map (\<lambda>k. F (Suc k)) [0..<a - 1]"
proof (cases a)
  case 0
  then show ?thesis by simp
next
  case (Suc m)
  have "map F [Suc 0..<Suc m] = map (\<lambda>k. F (Suc k)) [0..<m]"
    by (induction m) simp_all
  then show ?thesis using Suc by (simp add: upt_conv_Cons del: upt_Suc)
qed

lemma butlast_map_upt: "butlast (map F [0..<a]) = map F [0..<a - 1]"
  by (cases a) (simp_all add: map_butlast[symmetric])

lemma take_map_upt: "take m (map F [0..<a]) = map F [0..<min m a]"
proof (cases "m \<le> a")
  case True
  then show ?thesis by (simp add: take_map min_def)
next
  case False
  then show ?thesis by (simp add: take_map min_def)
qed

lemma at_depth2_tab:
  assumes "\<And>F :: nat \<Rightarrow> tensor. f (map F [0..<a]) = map (\<lambda>k. F (sh k)) [0..<a']"
  shows "at_depth 2 f (tab (B # N # a # s) g)
       = tab (B # N # a' # s) (\<lambda>js. g (take 2 js @ sh (js ! 2) # drop 3 js))"
proof -
  have "at_depth 2 f (tab (B # N # a # s) g)
      = Ar (map (\<lambda>i. Ar (map (\<lambda>j. Ar (map (\<lambda>k. tab s (\<lambda>js. g (i # j # sh k # js))) [0..<a'])) [0..<N])) [0..<B])"
    by (simp add: tab.simps numeral_2_eq_2 o_def assms)
  also have "\<dots> = tab (B # N # a' # s) (\<lambda>js. g (take 2 js @ sh (js ! 2) # drop 3 js))"
    by (simp add: tab.simps numeral_2_eq_2 numeral_3_eq_3)
  finally show ?thesis .
qed

lemma slice_tl_tab:
  assumes "0 < B" "0 < N" "0 < a" "0 \<notin> set s"
  shows "slice_axis2 tl (tab (B # N # a # s) g)
       = Inr (tab (B # N # (a - 1) # s) (\<lambda>js. g (take 2 js @ Suc (js ! 2) # drop 3 js)))"
  using assms by (simp add: slice_axis2_def shape_tab at_depth2_tab[where sh = Suc and a' = "a - 1"] tl_map_upt)

lemma slice_butlast_tab:
  assumes "0 < B" "0 < N" "0 < a" "0 \<notin> set s"
  shows "slice_axis2 butlast (tab (B # N # a # s) g)
       = Inr (tab (B # N # (a - 1) # s) (\<lambda>js. g (take 2 js @ js ! 2 # drop 3 js)))"
  using assms by (simp add: slice_axis2_def shape_tab at_depth2_tab[where sh = "\<lambda>k. k" and a' = "a - 1"] butlast_map_upt)

lemma slice_take_tab:
  assumes "0 < B" "0 < N" "0 < a" "0 \<notin> set s"
  shows "slice_axis2 (take m) (tab (B # N # a # s) g)
       = Inr (tab (B # N # min m a # s) (\<lambda>js. g (take 2 js @ js ! 2 # drop 3 js)))"
  using assms by (simp add: slice_axis2_def shape_tab at_depth2_tab[where sh = "\<lambda>k. k" and a' = "min m a"] take_map_upt)


lemma chunks3_append:
  "chunks3 xs = Some a \<Longrightarrow> chunks3 (xs @ ys) = map_option ((@) a) (chunks3 ys)"
proof (induction xs arbitrary: a rule: chunks3.induct)
  case 1
  then show ?case by (cases "chunks3 ys") auto
next
  case (2 a b c vs)
  then show ?case by (cases "chunks3 vs"; cases "chunks3 ys") auto
qed auto

lemma chunks3_concat:
  "(\<And>x. x \<in> set xs \<Longrightarrow> chunks3 (F x) = Some (G x)) \<Longrightarrow>
   chunks3 (concat (map F xs)) = Some (concat (map G xs))"
  by (induction xs) (auto simp: chunks3_append)

lemma all_idx_snoc_aux:
  "concat (map (\<lambda>js. map (\<lambda>k. js @ [k]) ns) (concat (map (\<lambda>i. map ((#) i) X) ms)))
   = concat (map (\<lambda>i. map ((#) i) (concat (map (\<lambda>js. map (\<lambda>k. js @ [k]) ns) X))) ms)"
  by (induction ms) (simp_all add: map_concat o_def)

lemma all_idx_snoc: "all_idx (s @ [n]) = concat (map (\<lambda>js. map (\<lambda>k. js @ [k]) [0..<n]) (all_idx s))"
proof (induction s)
  case Nil
  then show ?case by (simp add: all_idx.simps o_def)
next
  case (Cons m s)
  show ?case by (simp add: all_idx.simps Cons all_idx_snoc_aux)
qed

lemma upt_3: "[0..<3] = [0, 1, 2]"
  by (simp add: upt_rec)

lemma chunks3_flatten:
  "chunks3 (map h (all_idx [N, 3, 3]))
   = Some (map (\<lambda>js. Ar [Sc (h (js @ [0])), Sc (h (js @ [1])), Sc (h (js @ [2]))]) (all_idx [N, 3]))"
proof -
  have "all_idx [N, 3, 3] = concat (map (\<lambda>js. [js @ [0], js @ [1], js @ [2]]) (all_idx [N, 3]))"
    using all_idx_snoc[of "[N, 3]" 3] by (simp add: upt_3)
  then have "map h (all_idx [N, 3, 3])
      = concat (map (\<lambda>js. [h (js @ [0]), h (js @ [1]), h (js @ [2])]) (all_idx [N, 3]))"
    by (simp add: map_concat o_def)
  moreover have "chunks3 (concat (map (\<lambda>js. [h (js @ [0]), h (js @ [1]), h (js @ [2])]) (all_idx [N, 3])))
      = Some (concat (map (\<lambda>js. [Ar [Sc (h (js @ [0])), Sc (h (js @ [1])), Sc (h (js @ [2]))]]) (all_idx [N, 3])))"
    by (rule chunks3_concat) simp
  ultimately show ?thesis by (simp add: concat_map_singleton)
qed

lemma all_idx_nonempty: "0 \<notin> set s \<Longrightarrow> all_idx s \<noteq> []"
proof (induction s)
  case Nil
  then show ?case by (simp add: all_idx.simps)
next
  case (Cons n s)
  then obtain m where "n = Suc m" by (cases n) auto
  then show ?case using Cons by (simp add: all_idx.simps upt_conv_Cons del: upt_Suc)
qed

lemma shape_matrix:
  "L \<noteq> [] \<Longrightarrow> shape (Ar (map (\<lambda>p. Ar (map (\<lambda>q. Sc (F p q)) L)) L)) = [length L, length L]"
  by (cases L) auto

lemma diversity_tab:
  assumes "0 < B" "0 < N"
  shows "diversity_reward_of (tab [B, N, 3, 3] g)
       = Inr (tab [B] (\<lambda>js. pairwise_mean (atom_points N (\<lambda>ks. g (hd js # ks)))))"
proof -
  let ?pts = "\<lambda>b. map (\<lambda>js. Ar [Sc (g (b # js @ [0])), Sc (g (b # js @ [1])), Sc (g (b # js @ [2]))])
                     (all_idx [N, 3])"
  have fl: "flatten (tab [N, 3, 3] h) = map h (all_idx [N, 3, 3])" for h
    by (rule flatten_tab)
  have rp: "reshape_points (tab [B, N, 3, 3] g) = Inr (Ar (map (\<lambda>b. Ar (?pts b)) [0..<B]))"
    using assms(1)
    by (simp add: reshape_points_def tab.simps(2)[of B] fl chunks3_flatten list_ex_iff o_def)
  have ne: "all_idx [N, 3] \<noteq> []" using assms(2) by (intro all_idx_nonempty) simp
  obtain j js where ai: "all_idx [N, 3] = j # js" using ne by (cases "all_idx [N, 3]") auto
  obtain B' where B: "B = Suc B'" using assms(1) by (cases B) auto
  have sh: "length (shape (cdist (Ar (map (\<lambda>b. Ar (?pts b)) [0..<B])))) = 3"
    by (simp add: cdist_def B ai upt_conv_Cons del: upt_Suc)
  have sh2: "length (shape (Ar (map (\<lambda>p. Ar (map (\<lambda>q. Sc (fdist (flatten p) (flatten q))) (?pts b))) (?pts b)))) = 2" for b
    by (simp add: ai)
  have "reduce_dims 2 fmean (cdist (Ar (map (\<lambda>b. Ar (?pts b)) [0..<B])))
      = Inr (Ar (map (\<lambda>b. Sc (pairwise_mean (atom_points N (\<lambda>ks. g (b # ks))))) [0..<B]))"
    unfolding reduce_dims_def using sh
    apply (simp add: )
    apply (simp add: cdist_def o_def shape_matrix[OF ne] pairwise_mean_def atom_points_def map_concat)
    done
  moreover have "tab [B] F = Ar (map (\<lambda>b. Sc (F [b])) [0..<B])" for F
    by (simp add: tab.simps)
  ultimately show ?thesis unfolding diversity_reward_of_def rp ebind_Inr by simp
qed


lemma all_idx_1: "all_idx [n] = map (\<lambda>i. [i]) [0..<n]"
  by (simp add: all_idx.simps o_def)

lemma upt_2: "[0..<2] = [0, 1]"
  by (simp add: upt_rec)

lemma fbool_and: "fbool (fbool p \<noteq> Fin 0 \<and> fbool q \<noteq> Fin 0) = fbool (p \<and> q)"
  by (simp add: fbool_def)

lemma validity_tab:
  assumes "0 < B" "0 < N"
  shows "validity_reward_of (tab [B, N, 3, 3] g)
       = Inr (tab [B, N] (\<lambda>js. fmean [bond_valid (bond_length g js 0), bond_valid (bond_length g js 1)]))"
proof -
  have bl: "bond_lengths_of (tab [B, N, 3, 3] g)
      = Inr (tab [B, N, 2] (\<lambda>js. bond_length g (butlast js) (last js)))"
  proof -
    have "tab [B, N, 2] (\<lambda>js. fnorm (map (\<lambda>ks. fsub (g (take 2 (js @ ks) @ Suc ((js @ ks) ! 2) # drop 3 (js @ ks)))
                  (g (take 2 (js @ ks) @ (js @ ks) ! 2 # drop 3 (js @ ks)))) (all_idx [3])))
        = tab [B, N, 2] (\<lambda>js. bond_length g (butlast js) (last js))"
    proof (rule tab_cong)
      fix js assume "list_all2 (<) js [B, N, 2]"
      then obtain b n k where js: "js = [b, n, k]" by (auto simp: list_all2_Cons2)
      show "fnorm (map (\<lambda>ks. fsub (g (take 2 (js @ ks) @ Suc ((js @ ks) ! 2) # drop 3 (js @ ks)))
                  (g (take 2 (js @ ks) @ (js @ ks) ! 2 # drop 3 (js @ ks)))) (all_idx [3]))
          = bond_length g (butlast js) (last js)"
        by (simp add: js all_idx_1 upt_3 bond_length_def numeral_2_eq_2 numeral_3_eq_3)
    qed
    then show ?thesis
      using assms
      by (simp add: bond_lengths_of_def slice_tl_tab slice_butlast_tab bc_tab_same reduce_dims_tab)
  qed
  have "tab [B, N] (\<lambda>js. fmean (map (\<lambda>ks. fbool (fbool (flt (Fin 1) (bond_length g (butlast (js @ ks)) (last (js @ ks)))) \<noteq> Fin 0
              \<and> fbool (flt (bond_length g (butlast (js @ ks)) (last (js @ ks))) (Fin 2)) \<noteq> Fin 0)) (all_idx [2])))
      = tab [B, N] (\<lambda>js. fmean [bond_valid (bond_length g js 0), bond_valid (bond_length g js 1)])"
    by (rule tab_cong) (simp add: all_idx_1 upt_2 fbool_and bond_valid_def)
  then show ?thesis
    using assms
    by (simp add: validity_reward_of_def bl map_t_tab logical_and_def bc_tab_same reduce_dims_tab)
qed


lemma reward_tab:
  assumes "0 < B" "0 < N"
  shows "reward_of (tab [B] d) (tab [B, N] v) =
     (if B = N \<or> B = 1 \<or> N = 1
      then Inr (tab [B, bdim B N]
                 (\<lambda>js. fadd (fmul (Fin 2) (d (drop 1 (clip [1, B] js)))) (fmul (Fin 1) (v (clip [B, N] js)))))
      else Inl RuntimeError)"
  using assms by (auto simp: reward_of_def map_t_tab bc_tab compat_def)

lemma sum_squares_nonneg: "0 \<le> sum_list (map (\<lambda>(a, b). (a - b) * (a - b)) zs)" for zs :: "(real \<times> real) list"
  by (induction zs) auto

lemma fdist_Fin: "fdist (map Fin p) (map Fin q) = Fin (dist3 p q)"
proof -
  have "map (\<lambda>v. fmul v v) (map (\<lambda>(a, b). fsub a b) (zip (map Fin p) (map Fin q)))
      = map (\<lambda>z. Fin ((\<lambda>(a, b). (a - b) * (a - b)) z)) (zip p q)"
    by (simp add: zip_map_map fsub_def split_def o_def)
  then have "fsum (map (\<lambda>v. fmul v v) (map (\<lambda>(a, b). fsub a b) (zip (map Fin p) (map Fin q))))
      = Fin (sum_list (map (\<lambda>(a, b). (a - b) * (a - b)) (zip p q)))"
    by (simp only: fsum_Fin)
  then show ?thesis
    using sum_squares_nonneg[of "zip p q"] by (simp add: fdist_def fnorm_def dist3_def)
qed

lemma pairwise_mean_Fin:
  assumes "pts \<noteq> []"
  shows "pairwise_mean (map (map Fin) pts) = Fin (pmean pts)"
proof -
  have "concat (map (\<lambda>p. map (fdist p) (map (map Fin) pts)) (map (map Fin) pts))
      = map Fin (concat (map (\<lambda>p. map (dist3 p) pts) pts))"
    by (simp add: map_concat o_def fdist_Fin)
  moreover have "fsum (map Fin xs) = Fin (sum_list xs)" for xs
    using fsum_Fin[of "\<lambda>x. x" xs] by simp
  moreover have "length (concat (map (\<lambda>p. map (dist3 p) pts) pts)) = length pts * length pts"
    by (simp add: length_concat o_def sum_list_triv)
  ultimately show ?thesis
    using assms by (simp add: pairwise_mean_def fmean_def pmean_def)
qed

lemma atom_points_Fin: "atom_points N (\<lambda>ks. Fin (x ks)) = map (map Fin) (rpoints N x)"
  by (simp add: atom_points_def rpoints_def)

lemma rpoints_nonempty: "0 < N \<Longrightarrow> rpoints N x \<noteq> []"
  using all_idx_nonempty[of "[N, 3]"] by (simp add: rpoints_def)

lemma dist3_scale: "dist3 (map ((*) 2) p) (map ((*) 2) q) = 2 * dist3 p q"
proof -
  have "map (\<lambda>(a, b). (a - b) * (a - b)) (zip (map ((*) 2) p) (map ((*) 2) q))
      = map (\<lambda>z. 4 * (\<lambda>(a, b). (a - b) * (a - b)) z) (zip p q)"
    by (simp add: zip_map_map split_def o_def algebra_simps)
  then have "sum_list (map (\<lambda>(a, b). (a - b) * (a - b)) (zip (map ((*) 2) p) (map ((*) 2) q)))
      = 4 * sum_list (map (\<lambda>(a, b). (a - b) * (a - b)) (zip p q))"
    by (simp only: sum_list_const_mult)
  then show ?thesis by (simp add: dist3_def real_sqrt_mult)
qed

lemma pmean_scale: "pmean (map (map ((*) 2)) pts) = 2 * pmean pts"
proof -
  have "concat (map (\<lambda>p. map (dist3 p) (map (map ((*) 2)) pts)) (map (map ((*) 2)) pts))
      = map ((*) 2) (concat (map (\<lambda>p. map (dist3 p) pts) pts))"
    by (simp add: map_concat o_def dist3_scale)
  then show ?thesis by (simp add: pmean_def sum_list_const_mult)
qed

lemma rpoints_scale: "rpoints N (\<lambda>js. 2 * x js) = map (map ((*) 2)) (rpoints N x)"
  by (simp add: rpoints_def)

lemma dist3_nonneg: "0 \<le> dist3 p q"
  by (simp add: dist3_def sum_squares_nonneg)

lemma pmean_nonneg: "0 \<le> pmean pts"
proof -
  have "0 \<le> sum_list (concat (map (\<lambda>p. map (dist3 p) pts) pts))"
    by (rule sum_list_nonneg) (auto simp: dist3_nonneg)
  then show ?thesis by (simp add: pmean_def)
qed

lemma dist3_pos: "length p = length q \<Longrightarrow> p \<noteq> q \<Longrightarrow> 0 < dist3 p q"
proof (induction p q rule: list_induct2)
  case Nil
  then show ?case by simp
next
  case (Cons a p b q)
  have nn: "0 \<le> sum_list (map (\<lambda>(a, b). (a - b) * (a - b)) (zip p q))"
    by (rule sum_squares_nonneg)
  show ?case
  proof (cases "a = b")
    case True
    then have "p \<noteq> q" using Cons.prems by simp
    then have "0 < dist3 p q" by (rule Cons.IH)
    then show ?thesis using True by (simp add: dist3_def)
  next
    case False
    then have "0 < (a - b) * (a - b)" by (auto simp: zero_less_mult_iff)
    then show ?thesis using nn by (simp add: dist3_def add_pos_nonneg)
  qed
qed

lemma pmean_pos:
  assumes "p \<in> set pts" "q \<in> set pts" "length p = length q" "p \<noteq> q"
  shows "0 < pmean pts"
proof -
  let ?ds = "concat (map (\<lambda>p. map (dist3 p) pts) pts)"
  have mem: "dist3 p q \<in> set ?ds" using assms(1,2) by auto
  have "\<forall>d\<in>set ?ds. 0 \<le> d" by (auto simp: dist3_nonneg)
  then have "dist3 p q \<le> sum_list ?ds" using mem by (meson member_le_sum_list)
  then have "0 < sum_list ?ds" using dist3_pos[OF assms(3,4)] by linarith
  moreover have "0 < length pts" using assms(1) by (cases pts) auto
  ultimately show ?thesis by (simp add: pmean_def)
qed


lemma diversity_rt:
  assumes "0 < B" "0 < N"
  shows "diversity_reward_of (rt [B, N, 3, 3] y)
           = Inr (rt [B] (\<lambda>js. pmean (rpoints N (\<lambda>ks. y (hd js # ks)))))"
  using diversity_tab[OF assms, of "\<lambda>js. Fin (y js)"] rpoints_nonempty[OF assms(2)]
  by (simp add: rt_def atom_points_Fin pairwise_mean_Fin)

lemma all_idx_1_3: "all_idx [Suc 0, 3] = [[0, 0], [0, 1], [0, 2]]"
  by (simp add: all_idx.simps upt_3)

lemma ebind_eq_Inl: "ebind m k = Inl e \<longleftrightarrow> m = Inl e \<or> (\<exists>x. m = Inr x \<and> k x = Inl e)"
  by (cases m) (auto simp: ebind_def)

lemma einsum_mismatch:
  assumes "shape g = [B, N, 3]" "shape a = [B, N, 3]" "N \<noteq> 1" "N \<noteq> 3"
  shows "einsum_ijm_j_i g a = Inl RuntimeError"
  using assms by (simp add: einsum_ijm_j_i_def Let_def)

lemma terminal_costate_tab:
  assumes "0 < B" "0 < N"
  shows "bc fmul (map_t (\<lambda>v. Fin (- 1)) (tab [B, N, 3] x)) (unsqueeze_last (tab [B, N] m))
       = Inr (tab [B, N, 3] (\<lambda>js. fmul (Fin (- 1)) (m (butlast js))))"
proof -
  have "tab [B, N, 3] (\<lambda>js. fmul (Fin (- 1)) (m (butlast (clip [B, N, 1] js))))
      = tab [B, N, 3] (\<lambda>js. fmul (Fin (- 1)) (m (butlast js)))"
    by (rule tab_cong) (auto simp: list_all2_Cons2 clip_def)
  then show ?thesis
    using assms by (simp add: map_t_tab unsqueeze_last_tab bc_tab clip_id)
qed

lemma adjoint_step_raises:
  assumes "0 < B" "0 < N" "N \<noteq> 1" "N \<noteq> 3"
    and "\<forall>f x g. autograd_grad c f x = Inr g \<longrightarrow> shape g = shape x"
  shows "\<exists>e. adjoint_step c drift t mask_t dt tc (tab [B, N, 3] a, tab [B, N, 3] x, l) = Inl e"
proof -
  let ?md = "masked_drift drift mask_t (map_t (\<lambda>v. tc) t)"
  let ?f = "\<lambda>x. ebind (?md x) (\<lambda>d. Inr (Sc (fsum (flatten d))))"
  have sh: "shape (tab [B, N, 3] y) = [B, N, 3]" for y
    using assms(1,2) by (simp add: shape_tab)
  show ?thesis
  proof (cases "?md (tab [B, N, 3] x)")
    case (Inl e)
    then show ?thesis by (simp add: adjoint_step_def Let_def)
  next
    case md: (Inr curr_drift)
    show ?thesis
    proof (cases "autograd_grad c ?f (tab [B, N, 3] x)")
      case (Inl e)
      then show ?thesis using md by (simp add: adjoint_step_def Let_def)
    next
      case (Inr grad_b)
      then have "shape grad_b = [B, N, 3]" using assms(5) sh by metis
      then have "einsum_ijm_j_i grad_b (tab [B, N, 3] a) = Inl RuntimeError"
        using einsum_mismatch sh assms(3,4) by blast
      then show ?thesis using md Inr by (simp add: adjoint_step_def Let_def)
    qed
  qed
qed

lemma linspace_pairs:
  "zip (butlast (linspace 1 0 20)) (tl (linspace 1 0 20)) \<noteq> []"
  by (simp add: linspace_def upt_rec)

lemma solver_raises_gen:
  assumes "0 < B" "0 < N" "N \<noteq> 1" "N \<noteq> 3"
    and "\<forall>f x g. autograd_grad c f x = Inr g \<longrightarrow> shape g = shape x"
  shows "\<exists>e. solve_adjoint_state c drift (tab [B, N, 3] x) t (tab [B, N] m) = Inl e"
proof -
  obtain p ps where ps: "zip (butlast (linspace 1 0 20)) (tl (linspace 1 0 20)) = p # ps"
    using linspace_pairs by (cases "zip (butlast (linspace 1 0 20)) (tl (linspace 1 0 20))") auto
  obtain tc tn where p: "p = (tc, tn)" by (cases p)
  let ?a = "tab [B, N, 3] (\<lambda>js. fmul (Fin (- 1)) (m (butlast js)))"
  obtain e where "adjoint_step c drift t (tab [B, N] m) (fsub (linspace 1 0 20 ! 1) (linspace 1 0 20 ! 0)) tc
      (?a, tab [B, N, 3] x, [?a]) = Inl e"
    using adjoint_step_raises[OF assms] by blast
  then show ?thesis
    using assms(1,2)
    by (simp add: solve_adjoint_state_def terminal_costate_tab Let_def ps p)
qed

lemma shape_map_t: "shape (map_t f t) = shape t"
proof (induction t rule: shape.induct)
  case (3 x xs)
  then show ?case by simp
qed auto

lemma zero_adjoint_step_raises:
  assumes "0 < B" "0 < N" "N \<noteq> 1" "N \<noteq> 3"
    and "\<forall>f x. autograd_grad c f x = Inr (map_t (\<lambda>v. Fin 0) x)"
  shows "adjoint_step c zero_drift t (tab [B, N] m) dt tc (tab [B, N, 3] a, tab [B, N, 3] x, l)
       = Inl RuntimeError"
proof -
  have sh: "shape (tab [B, N, 3] y) = [B, N, 3]" for y
    using assms(1,2) by (simp add: shape_tab)
  have "einsum_ijm_j_i (map_t (\<lambda>v. Fin 0) (tab [B, N, 3] x)) (tab [B, N, 3] a) = Inl RuntimeError"
    using einsum_mismatch[of _ B N] sh assms(3,4) by (simp add: shape_map_t)
  then show ?thesis
    using assms(1,2,5)
    by (simp add: adjoint_step_def masked_drift_def zero_drift_def Let_def map_t_tab
        unsqueeze_last_tab bc_tab)
qed

lemma clip_Cons [simp]: "clip (n # s) (i # js) = (if i < n then i else 0) # clip s js"
  by (simp add: clip_def)

lemma clip_Nil [simp]: "clip [] js = []" "clip s [] = []"
  by (simp_all add: clip_def)

lemma if_less_one [simp]: "(if n < Suc 0 then n else 0) = 0" "(if n = 0 then n else 0) = (0::nat)"
  by simp_all

lemma unsqueeze_last2_tab:
  "unsqueeze_last2 (tab s g) = tab (s @ [1, 1]) (\<lambda>js. g (butlast (butlast js)))"
  using unsqueeze_last_tab[of "s @ [1]" "\<lambda>js. g (butlast js)"]
  by (simp add: unsqueeze_last2_def unsqueeze_last_tab)


lemma clamp_max_Fin: "clamp_max (Fin c) (Fin x) = Fin (min x c)"
  by (simp add: clamp_max_def min_def)


lemma fsum_all_idx3:
  assumes "\<And>i j l. i < n \<Longrightarrow> j < k \<Longrightarrow> l < q \<Longrightarrow> G [i, j, l] = Fin (F i j l)"
  shows "fsum (map G (all_idx [n, k, q])) = Fin (\<Sum>i<n. \<Sum>j<k. \<Sum>l<q. F i j l)"
proof -
  have "fsum (map G (all_idx [n, k, q]))
      = Fin (sum_list (map (\<lambda>js. F (js ! 0) (js ! 1) (js ! 2)) (all_idx [n, k, q])))"
    by (rule fsum_Fin_cong) (auto simp: all_idx_mem list_all2_Cons2 assms)
  then show ?thesis
    by (simp add: sum_list_all_idx_Cons[of _ n "[k, q]"] sum_list_all_idx_Cons[of _ k "[q]"]
        sum_list_all_idx1)
qed

lemma sum_last3_rt:
  assumes "0 < B" "0 < N"
  shows "reduce_dims 3 fsum (rt [B, N, 3, 3] u)
       = Inr (rt [B] (\<lambda>js. \<Sum>n<N. \<Sum>a<3. \<Sum>c<3. u (js @ [n, a, c])))"
proof -
  have "tab [B] (\<lambda>js. fsum (map (\<lambda>ks. Fin (u (js @ ks))) (all_idx [N, 3, 3])))
      = tab [B] (\<lambda>js. Fin (\<Sum>n<N. \<Sum>a<3. \<Sum>c<3. u (js @ [n, a, c])))"
    by (rule tab_cong) (simp add: fsum_all_idx3)
  then show ?thesis using assms by (simp add: rt_def reduce_dims_tab)
qed

lemma slice_take3_rt:
  assumes "0 < B" "0 < N" "3 \<le> A"
  shows "slice_axis2 (take 3) (rt [B, N, A, 3] G) = Inr (rt [B, N, 3, 3] G)"
proof -
  have "tab [B, N, 3, 3] (\<lambda>js. Fin (G (take 2 js @ js ! 2 # drop 3 js))) = tab [B, N, 3, 3] (\<lambda>js. Fin (G js))"
    by (rule tab_cong) (auto simp: list_all2_Cons2)
  then show ?thesis
    using assms slice_take_tab[of B N A "[3]" 3 "\<lambda>js. Fin (G js)"] by (simp add: rt_def min_def)
qed

lemma diff_rt:
  assumes "0 < B" "0 < N"
  shows "bc fsub (rt [B, N, 3, 3] G) (rt [B, N, 3, 3] P) = Inr (rt [B, N, 3, 3] (\<lambda>js. G js - P js))"
  using assms by (intro bc_rt_same) (simp_all add: fsub_def)

lemma square_masked4_rt:
  assumes "0 < B" "0 < N"
  shows "masked_square (rt [B, N, 3, 3] u) (unsqueeze_last2 (rt [B, N] m))
       = Inr (rt [B, N, 3, 3] (\<lambda>js. u js * u js * m [js ! 0, js ! 1]))"
  using assms
  apply (simp add: masked_square_def rt_def map_t_tab unsqueeze_last2_tab bc_tab Let_def)
  apply (rule tab_cong)
  apply (auto simp: list_all2_Cons2)
  done

lemma quotient_rt:
  assumes "0 < B" "\<forall>j<B. d [j] \<noteq> 0"
  shows "bc fdiv (rt [B] u) (map_t (\<lambda>v. fmul v (Fin 3)) (rt [B] d))
       = Inr (rt [B] (\<lambda>js. u js / (d js * 3)))"
  using assms
  apply (simp add: rt_def map_t_tab bc_tab_same)
  apply (rule tab_cong)
  apply (auto simp: list_all2_Cons2)
  done

lemma bb_atom_loss_rt:
  assumes "0 < B" "0 < N" "\<forall>j<B. (\<Sum>n<N. m [j, n]) \<noteq> 0"
  shows "bb_atom_loss_of (rt [B, N, 3, 3] G) (rt [B, N, 3, 3] P) (rt [B, N] m)
       = Inr (rt [B] (\<lambda>js. bb_regression N (js ! 0) G P m))"
proof -
  have nz: "\<forall>j<B. (\<Sum>n<N. m ([j] @ [n])) \<noteq> 0" using assms(3) by simp
  have "rt [B] (\<lambda>js. (\<Sum>n<N. \<Sum>a<3. \<Sum>c<3. (G (js @ [n, a, c]) - P (js @ [n, a, c])) * (G (js @ [n, a, c]) - P (js @ [n, a, c]))
              * m [(js @ [n, a, c]) ! 0, (js @ [n, a, c]) ! 1]) / ((\<Sum>n<N. m (js @ [n])) * 3))
      = rt [B] (\<lambda>js. bb_regression N (js ! 0) G P m)"
    by (rule rt_cong) (auto simp: list_all2_Cons2 bb_regression_def power2_eq_square)
  then show ?thesis
    by (simp only: bb_atom_loss_of_def sum_last_rt1[OF assms(1,2)] ebind_Inr Let_def
        diff_rt[OF assms(1,2)] square_masked4_rt[OF assms(1,2)]
        sum_last3_rt[OF assms(1,2)] quotient_rt[OF assms(1) nz])
qed

lemma index00_rt:
  assumes "0 < B"
  shows "index00 (rt [B, 1] t) = Inr (Sc (Fin (t [0, 0])))"
proof -
  obtain B' where B: "B = Suc B'" using assms by (cases B) auto
  show ?thesis by (simp add: rt_def tab.simps index00_def B upt_conv_Cons del: upt_Suc)
qed

lemma truth_gt_half: "truth (map_t (\<lambda>v. fbool (flt (Fin (1 / 2)) v)) (Sc (Fin v))) = Inr (1 / 2 < v)"
  by (simp add: truth_def fbool_def)

lemma bb_regression_ex: "bb_regression 1 b (\<lambda>js. 1) (\<lambda>js. 0) (\<lambda>js. 1) = 3"
  by (simp add: bb_regression_def)




lemma shape_tab_length: "0 \<notin> set s \<Longrightarrow> length (shape (tab s h)) = length s"
  by (simp add: shape_tab)












lemma loop_fixpoint:
  assumes step: "\<And>r l. adjoint_step c drift t m dt (Fin r) (a, x, l) = Inr (a, x, l @ [a])"
    and "\<forall>p\<in>set ps. \<exists>r. fst p = Fin r"
  shows "\<exists>l'. adjoint_loop c drift t m dt ps (a, x, l @ [a]) = Inr (a, x, l' @ [a])"
  using assms(2)
proof (induction ps arbitrary: l)
  case Nil
  then show ?case by simp
next
  case (Cons p ps)
  obtain tc tn where p: "p = (Fin tc, tn)" using Cons.prems by (cases p) auto
  obtain l' where "adjoint_loop c drift t m dt ps (a, x, (l @ [a]) @ [a]) = Inr (a, x, l' @ [a])"
    using Cons.IH[of "l @ [a]"] Cons.prems by auto
  then show ?case
    by (simp add: p step)
qed

lemma linspace_Fin: "\<forall>p\<in>set (zip (butlast (linspace 1 0 20)) (tl (linspace 1 0 20))). \<exists>r. fst p = Fin r"
proof
  fix p assume "p \<in> set (zip (butlast (linspace 1 0 20)) (tl (linspace 1 0 20)))"
  then have "(fst p, snd p) \<in> set (zip (butlast (linspace 1 0 20)) (tl (linspace 1 0 20)))"
    by simp
  then have "fst p \<in> set (butlast (linspace 1 0 20))"
    by (rule set_zip_leftD)
  then have "fst p \<in> set (linspace 1 0 20)" by (rule in_set_butlastD)
  then show "\<exists>r. fst p = Fin r" by (auto simp: linspace_def)
qed

lemma linspace_dt: "\<exists>d. fsub (linspace 1 0 20 ! 1) (linspace 1 0 20 ! 0) = Fin d"
  by (simp add: linspace_def fsub_def upt_rec)




lemma lit11: "rt [1, 1] (\<lambda>js. v) = Ar [Ar [Sc (Fin v)]]"
  by (simp add: rt_def tab.simps)

lemma lit113: "rt [1, 1, 3] (\<lambda>js. v) = Ar [Ar [Ar [Sc (Fin v), Sc (Fin v), Sc (Fin v)]]]"
  by (simp add: rt_def tab.simps upt_3)

lemma lit1133: "rt [1, 1, 3, 3] (\<lambda>js. v) =
    Ar [Ar [Ar [Ar [Sc (Fin v), Sc (Fin v), Sc (Fin v)],
                Ar [Sc (Fin v), Sc (Fin v), Sc (Fin v)],
                Ar [Sc (Fin v), Sc (Fin v), Sc (Fin v)]]]]"
  by (simp add: rt_def tab.simps upt_3)

lemma one_mask: "bc fmul (rt [1, 1] (\<lambda>js. 1)) (rt [1, 1] (\<lambda>js. 1)) = Inr (rt [1, 1] (\<lambda>js. 1))"
  unfolding lit11 by (simp add: eval_tensor)

lemma one_count: "reduce_dims 1 fsum (rt [1, 1] (\<lambda>js. 1)) = Inr (Ar [Sc (Fin 1)])"
  unfolding lit11 by (simp add: eval_tensor fsum_def)

lemma one_atoms: "slice_axis2 (take 3) (rt [1, 1, 3, 3] (\<lambda>js. 0)) = Inr (rt [1, 1, 3, 3] (\<lambda>js. 0))"
  unfolding lit1133 by (simp add: slice_axis2_def numeral_2_eq_2)

lemma one_validity: "validity_reward_of (rt [1, 1, 3, 3] (\<lambda>js. 0)) = Inr (rt [1, 1] (\<lambda>js. 0))"
  unfolding lit1133 lit11
  by (simp add: validity_reward_of_def bond_lengths_of_def slice_axis2_def numeral_2_eq_2 eval_tensor
      logical_and_def fnorm_def fmean_def fsum_def fsub_def fbool_def)

lemma one_diversity: "diversity_reward_of (rt [1, 1, 3, 3] (\<lambda>js. 0)) = Inr (Ar [Sc (Fin 0)])"
  unfolding lit1133
  by (simp add: diversity_reward_of_def reshape_points_def cdist_def fdist_def fnorm_def eval_tensor
      fmean_def fsum_def fsub_def)

lemma one_reward: "reward_of (Ar [Sc (Fin 0)]) (rt [1, 1] (\<lambda>js. 0)) = Inr (rt [1, 1] (\<lambda>js. 0))"
  unfolding lit11 by (simp add: reward_of_def eval_tensor)

lemma one_sigma: "sigma_t_of (rt [1, 1] (\<lambda>js. 2 / 3)) = Inr (rt [1, 1] (\<lambda>js. 1))"
  unfolding lit11
  by (simp add: sigma_t_of_def eta_t_of_def eval_tensor fsub_def)

lemma linspace_zip_head:
  "\<exists>tn ps. zip (butlast (linspace 1 0 20)) (tl (linspace 1 0 20)) = (Fin 1, tn) # ps
      \<and> (\<forall>p\<in>set ps. \<exists>r. fst p = Fin r)"
proof -
  obtain p ps where ps: "zip (butlast (linspace 1 0 20)) (tl (linspace 1 0 20)) = p # ps"
    using linspace_pairs by (cases "zip (butlast (linspace 1 0 20)) (tl (linspace 1 0 20))") auto
  have "fst (hd (zip (butlast (linspace 1 0 20)) (tl (linspace 1 0 20)))) = Fin 1"
    by (simp add: linspace_def upt_rec)
  then have "fst p = Fin 1" unfolding ps by simp
  then obtain tn where p: "p = (Fin 1, tn)" by (cases p) auto
  have "\<forall>q\<in>set ps. \<exists>r. fst q = Fin r" using linspace_Fin unfolding ps by simp
  then show ?thesis using ps p by blast
qed

lemma solver_two_phase:
  assumes init: "bc fmul (map_t (\<lambda>v. Fin (- 1)) x0) (unsqueeze_last m) = Inr a"
    and first: "\<And>d l. adjoint_step c drift t m (Fin d) (Fin 1) (a, x0, l) = Inr (a, x1, l @ [a])"
    and rest: "\<And>d r l. adjoint_step c drift t m (Fin d) (Fin r) (a, x1, l) = Inr (a, x1, l @ [a])"
  shows "solve_adjoint_state c drift x0 t m = Inr a"
proof -
  obtain d where d: "fsub (linspace 1 0 20 ! 1) (linspace 1 0 20 ! 0) = Fin d"
    using linspace_dt by blast
  obtain tn ps where ps: "zip (butlast (linspace 1 0 20)) (tl (linspace 1 0 20)) = (Fin 1, tn) # ps"
    and fin: "\<forall>p\<in>set ps. \<exists>r. fst p = Fin r"
    using linspace_zip_head by blast
  obtain l' where l': "adjoint_loop c drift t m (Fin d) ps (a, x1, [a] @ [a]) = Inr (a, x1, l' @ [a])"
    using loop_fixpoint[of c drift t m "Fin d" a x1 ps "[a]", OF rest fin] by blast
  have "adjoint_loop c drift t m (Fin d) ((Fin 1, tn) # ps) (a, x0, [a]) = Inr (a, x1, l' @ [a])"
    using l' by (simp add: first)
  then show ?thesis
    using d by (simp add: solve_adjoint_state_def init Let_def ps)
qed

lemma one_trans_first:
  "adjoint_step c_rows (trans_drift (rt [1, 1, 3] (\<lambda>js. 0)) (rt [1, 1] (\<lambda>js. 0))) (rt [1, 1] (\<lambda>js. 2 / 3))
     (rt [1, 1] (\<lambda>js. 1)) (Fin d) (Fin 1) (rt [1, 1, 3] (\<lambda>js. - 1), rt [1, 1, 3] (\<lambda>js. 0), l)
   = Inr (rt [1, 1, 3] (\<lambda>js. - 1), nan_state, l @ [rt [1, 1, 3] (\<lambda>js. - 1)])"
  unfolding lit11 lit113 nan_state_def
  by (simp add: adjoint_step_def masked_drift_def trans_drift_def unsqueeze_last2_def c_rows_def zero_grad_def
      einsum_ijm_j_i_def ein_core_def eval_tensor fsub_def fsum_def)

lemma one_trans_rest:
  "adjoint_step c_rows (trans_drift (rt [1, 1, 3] (\<lambda>js. 0)) (rt [1, 1] (\<lambda>js. 0))) (rt [1, 1] (\<lambda>js. 2 / 3))
     (rt [1, 1] (\<lambda>js. 1)) (Fin d) (Fin r) (rt [1, 1, 3] (\<lambda>js. - 1), nan_state, l)
   = Inr (rt [1, 1, 3] (\<lambda>js. - 1), nan_state, l @ [rt [1, 1, 3] (\<lambda>js. - 1)])"
  unfolding lit11 lit113 nan_state_def
  by (simp add: adjoint_step_def masked_drift_def trans_drift_def unsqueeze_last2_def c_rows_def zero_grad_def
      einsum_ijm_j_i_def ein_core_def eval_tensor fsub_def fsum_def)

lemma one_trans_init:
  "bc fmul (map_t (\<lambda>v. Fin (- 1)) (rt [1, 1, 3] (\<lambda>js. 0))) (unsqueeze_last (rt [1, 1] (\<lambda>js. 1)))
     = Inr (rt [1, 1, 3] (\<lambda>js. - 1))"
  unfolding lit11 lit113 by (simp add: eval_tensor)

lemma one_trans_solver:
  "solve_adjoint_state c_rows (trans_drift (rt [1, 1, 3] (\<lambda>js. 0)) (rt [1, 1] (\<lambda>js. 0)))
     (rt [1, 1, 3] (\<lambda>js. 0)) (rt [1, 1] (\<lambda>js. 2 / 3)) (rt [1, 1] (\<lambda>js. 1))
   = Inr (rt [1, 1, 3] (\<lambda>js. - 1))"
  by (rule solver_two_phase[OF one_trans_init one_trans_first one_trans_rest])

lemma one_trans_loss:
  "trans_loss_of cfg0 (rt [1, 1, 3] (\<lambda>js. 0)) (rt [1, 1] (\<lambda>js. 0)) (rt [1, 1, 3] (\<lambda>js. 0))
     (rt [1, 1] (\<lambda>js. 2 / 3)) (rt [1, 1] (\<lambda>js. 1)) (rt [1, 1, 3] (\<lambda>js. - 1)) (rt [1, 1] (\<lambda>js. 1))
   = Inr (rt [1, 1] (\<lambda>js. 3))"
  unfolding lit11 lit113
  by (simp add: trans_loss_of_def trans_drift_def adjoint_loss_def masked_square_def unsqueeze_last2_def
      cfg0_def eval_tensor fsub_def fsum_def clamp_max_def)

lemma one_rot_init:
  "bc fmul (map_t (\<lambda>v. Fin (- 1)) (rt [1, 1, 3, 3] (\<lambda>js. 0))) (unsqueeze_last (rt [1, 1] (\<lambda>js. 1)))
     = Inr (rt [1, 1, 3, 3] (\<lambda>js. - 1))"
  unfolding lit11 lit1133 by (simp add: eval_tensor)

lemma one_rot_step:
  "adjoint_step c_rows (rot_drift c_rows (rt [1, 1, 3, 3] (\<lambda>js. 0)) (rt [1, 1] (\<lambda>js. 0))) (rt [1, 1] (\<lambda>js. 1 / 2))
     (rt [1, 1] (\<lambda>js. 1)) (Fin d) (Fin r) (rt [1, 1, 3, 3] (\<lambda>js. - 1), rt [1, 1, 3, 3] (\<lambda>js. 0), l)
   = Inr (rt [1, 1, 3, 3] (\<lambda>js. - 1), rt [1, 1, 3, 3] (\<lambda>js. 0), l @ [rt [1, 1, 3, 3] (\<lambda>js. - 1)])"
  unfolding lit11 lit1133
  by (simp add: adjoint_step_def masked_drift_def rot_drift_def unsqueeze_last2_def c_rows_def zero_grad_def
      einsum_ijm_j_i_def ein_core_def eval_tensor fsub_def fsum_def)

lemma one_rot_solver:
  "solve_adjoint_state c_rows (rot_drift c_rows (rt [1, 1, 3, 3] (\<lambda>js. 0)) (rt [1, 1] (\<lambda>js. 0)))
     (rt [1, 1, 3, 3] (\<lambda>js. 0)) (rt [1, 1] (\<lambda>js. 1 / 2)) (rt [1, 1] (\<lambda>js. 1))
   = Inr (rt [1, 1, 3, 3] (\<lambda>js. - 1))"
  by (rule solver_two_phase[OF one_rot_init one_rot_step one_rot_step])

lemma one_rots_loss:
  "rots_vf_loss_of cfg0 c_rows (rt [1, 1, 3, 3] (\<lambda>js. 0)) (rt [1, 1] (\<lambda>js. 0)) (rt [1, 1, 3, 3] (\<lambda>js. 0))
     (rt [1, 1] (\<lambda>js. 1 / 2)) (rt [1, 1, 3, 3] (\<lambda>js. - 1)) (rt [1, 1] (\<lambda>js. 1))
   = Inr (rt [1, 1] (\<lambda>js. 9))"
  unfolding lit11 lit1133
  by (simp add: rots_vf_loss_of_def rot_drift_def adjoint_loss_def masked_square_def unsqueeze_last2_def
      c_rows_def cfg0_def eval_tensor fsub_def fsum_def)

lemma one_aux:
  "auxiliary_loss_of cfg0 c_rows one_residue (rt [1, 1, 3, 3] (\<lambda>js. 0)) (rt [1, 1] (\<lambda>js. 0)) (rt [1, 1] (\<lambda>js. 1))
   = Inr (rt [1, 1] (\<lambda>js. 0))"
  unfolding lit11 lit1133 one_residue_def
  by (simp add: auxiliary_loss_of_def bb_atom_loss_of_def index00_def truth_def masked_square_def
      unsqueeze_last2_def slice_axis2_def numeral_2_eq_2 fbool_def
      c_rows_def cfg0_def eval_tensor fsub_def fsum_def clamp_max_def lit1133 lit11)

lemma one_checked:
  "checked_losses (rt [1, 1] (\<lambda>js. 3)) (rt [1, 1] (\<lambda>js. 9)) (rt [1, 1] (\<lambda>js. 0)) (Ar [Sc (Fin 0)])
      (rt [1, 1] (\<lambda>js. 0)) (rt [1, 1] (\<lambda>js. 0))
   = Inr \<lparr>trans_loss = rt [1, 1] (\<lambda>js. 3), auxiliary_loss = rt [1, 1] (\<lambda>js. 0),
          rots_vf_loss = rt [1, 1] (\<lambda>js. 9), se3_vf_loss = rt [1, 1] (\<lambda>js. 12),
          diversity_reward = Ar [Sc (Fin 0)], validity_reward = rt [1, 1] (\<lambda>js. 0),
          total_reward = rt [1, 1] (\<lambda>js. 0)\<rparr>"
  unfolding lit11
  by (simp add: checked_losses_def eval_tensor any_t_def isnan_def)

lemma one_model_step:
  "model_step cfg0 c_rows one_residue
   = Inr \<lparr>trans_loss = rt [1, 1] (\<lambda>js. 3), auxiliary_loss = rt [1, 1] (\<lambda>js. 0),
          rots_vf_loss = rt [1, 1] (\<lambda>js. 9), se3_vf_loss = rt [1, 1] (\<lambda>js. 12),
          diversity_reward = Ar [Sc (Fin 0)], validity_reward = rt [1, 1] (\<lambda>js. 0),
          total_reward = rt [1, 1] (\<lambda>js. 0)\<rparr>"
proof -
  have m: "model c_rows one_residue = (rt [1, 1, 3] (\<lambda>js. 0), rt [1, 1, 3, 3] (\<lambda>js. 0))"
    by (simp add: c_rows_def one_residue_def)
  have a: "to_atom37 c_rows (rt [1, 1, 3] (\<lambda>js. 0)) (rt [1, 1, 3, 3] (\<lambda>js. 0)) = rt [1, 1, 3, 3] (\<lambda>js. 0)"
    by (simp add: c_rows_def)
  have f: "res_mask one_residue = rt [1, 1] (\<lambda>js. 1)" "diffuse_mask one_residue = rt [1, 1] (\<lambda>js. 1)"
    "trans_t one_residue = rt [1, 1, 3] (\<lambda>js. 0)" "rotmats_t one_residue = rt [1, 1, 3, 3] (\<lambda>js. 0)"
    "r3_t one_residue = rt [1, 1] (\<lambda>js. 2 / 3)" "so3_t one_residue = rt [1, 1] (\<lambda>js. 1 / 2)"
    by (simp_all add: one_residue_def)
  have n: "\<not> any_t (\<lambda>v. flt v (Fin 1)) (Ar [Sc (Fin 1)])"
    by (simp add: any_t_def)
  show ?thesis
    unfolding model_step_def f one_mask ebind_Inr one_count m prod.case a one_atoms one_validity
      one_diversity one_reward one_sigma one_trans_solver one_trans_loss one_rot_solver one_rots_loss
      one_aux one_checked
    using n by simp
qed







lemma reward_rt:
  assumes "0 < B" "0 < N"
  shows "reward_of (rt [B] d) (rt [B, N] v) =
     (if B = N \<or> B = 1 \<or> N = 1 then Inr (rt [B, bdim B N] (reward_entries B N d v))
      else Inl RuntimeError)"
proof -
  have "tab [B, bdim B N]
          (\<lambda>js. fadd (fmul (Fin 2) (Fin (d (drop 1 (clip [1, B] js))))) (fmul (Fin 1) (Fin (v (clip [B, N] js)))))
      = tab [B, bdim B N] (\<lambda>js. Fin (reward_entries B N d v js))"
    by (rule tab_cong) (auto simp: list_all2_Cons2 reward_entries_def wrap_def)
  then show ?thesis
    using reward_tab[OF assms, of "\<lambda>js. Fin (d js)" "\<lambda>js. Fin (v js)"] by (simp add: rt_def)
qed





lemma weighted_reward2_rt:
  assumes "0 < B" "0 < K" "K = B \<or> B = 1"
  shows "bc fmul (map_t (\<lambda>v. fmul v (Fin w)) (rt [B] u)) (rt [B, K] r)
       = Inr (rt [B, K] (\<lambda>js. u [wrap B (js ! 1)] * w * r js))"
proof -
  have c: "compat B K" "bdim B K = K" using assms by (auto simp: compat_def bdim_def)
  have "tab [B, K] (\<lambda>js. Fin (u (drop (Suc 0) (clip [Suc 0, B] js)) * w * r (clip [B, K] js)))
      = tab [B, K] (\<lambda>js. Fin (u [wrap B (js ! 1)] * w * r js))"
    by (rule tab_cong) (auto simp: list_all2_Cons2 wrap_def)
  then show ?thesis
    using assms(1,2) c by (simp add: rt_def map_t_tab bc_tab Let_def)
qed

lemma auxiliary_loss2_rt:
  assumes "0 < B" "0 < N" "3 \<le> A" "0 < K" "K = B \<or> B = 1"
    and "r3_t b = rt [B, 1] t"
    and "to_atom37 c (trans_1 b) (rotmats_1 b) = rt [B, N, A, 3] G"
    and "\<forall>e<B. 1 \<le> (\<Sum>n<N. m [e, n])"
  shows "auxiliary_loss_of cfg c b (rt [B, N, 3, 3] P) (rt [B, K] r) (rt [B, N] m)
       = (if 0 < aux_loss_weight cfg \<and> 1 / 2 < t [0, 0]
          then Inr (rt [B, K] (\<lambda>js. min 5 (bb_regression N (wrap B (js ! 1)) G P m
                                              * aux_loss_weight cfg * r js)))
          else Inr (Sc (Fin 0)))"
proof -
  have nz: "\<forall>j<B. (\<Sum>n<N. m [j, n]) \<noteq> 0" using assms(8) by fastforce
  have cl: "map_t (clamp_max (Fin 5)) (rt [B, K] u) = rt [B, K] (\<lambda>js. min 5 (u js))" for u
    by (simp add: rt_def map_t_tab clamp_max_Fin min.commute)
  have wr: "bc fmul (map_t (\<lambda>v. fmul v (Fin w)) (rt [B] (\<lambda>js. bb_regression N (js ! 0) G P m))) (rt [B, K] r)
       = Inr (rt [B, K] (\<lambda>js. bb_regression N (wrap B (js ! 1)) G P m * w * r js))" for w
    using weighted_reward2_rt[OF assms(1,4,5), of w "\<lambda>js. bb_regression N (js ! 0) G P m" r] by simp
  show ?thesis
    unfolding auxiliary_loss_of_def assms(6,7) index00_rt[OF assms(1)] ebind_Inr truth_gt_half
      slice_take3_rt[OF assms(1,2,3)] bb_atom_loss_rt[OF assms(1,2) nz] wr cl
    by simp
qed


































lemma bb_regression_two: "bb_regression 2 0 (\<lambda>js. 1) (\<lambda>js. 0) (\<lambda>js. 1) = 3"
  by (simp add: bb_regression_def lessThan_Suc numeral_2_eq_2 numeral_3_eq_3)














section \<open>The noise schedule\<close>

lemma eta_t_tab:
  assumes "0 < B"
  shows "eta_t_of (tab [B, 1] g) =
         Inr (tab [B, 1] (\<lambda>js. fmul (fsub (Fin 1) (g js))
                (fsub (fmul (fdiv (Fin 1) (g js)) (fsub (Fin 1) (g js))) (fneg (Fin 1)))))"
proof -
  have *: "clip [B, Suc 0] js = js" if "list_all2 (<) js [B, 1]" for js
    using that by (auto simp: clip_def list_all2_Cons2)
  show ?thesis
    using assms
    apply (simp add: eta_t_of_def Let_def map_t_tab bc_tab)
    apply (rule tab_cong)
    apply (simp add: *)
    done
qed

lemma eta_t_rt:
  assumes "0 < B" "\<forall>b<B. t [b, 0] \<noteq> 0"
  shows "eta_t_of (rt [B, 1] t) = Inr (rt [B, 1] (\<lambda>js. (1 - t js) / t js))"
proof -
  have "tab [B, 1] (\<lambda>js. fmul (fsub (Fin 1) (Fin (t js)))
                (fsub (fmul (fdiv (Fin 1) (Fin (t js))) (fsub (Fin 1) (Fin (t js)))) (fneg (Fin 1))))
      = tab [B, 1] (\<lambda>js. Fin ((1 - t js) / t js))"
  proof (rule tab_cong)
    fix js assume "list_all2 (<) js [B, 1]"
    then obtain b where js: "js = [b, 0]" "b < B" by (auto simp: list_all2_Cons2)
    then have nz: "t js \<noteq> 0" using assms by simp
    then show "fmul (fsub (Fin 1) (Fin (t js)))
                (fsub (fmul (fdiv (Fin 1) (Fin (t js))) (fsub (Fin 1) (Fin (t js)))) (fneg (Fin 1)))
             = Fin ((1 - t js) / t js)"
      by (simp add: fsub_def field_simps)
  qed
  then show ?thesis using eta_t_tab[OF assms(1), of "\<lambda>js. Fin (t js)"] by (simp add: rt_def)
qed

lemma sigma_t_rt:
  assumes "0 < B" "\<forall>b<B. 0 < t [b, 0] \<and> t [b, 0] < 1"
  shows "sigma_t_of (rt [B, 1] t) = Inr (rt [B, 1] (\<lambda>js. sqrt (2 * ((1 - t js) / t js))))"
proof -
  have nz: "\<forall>b<B. t [b, 0] \<noteq> 0" using assms(2) by fastforce
  have "tab [B, 1] (\<lambda>js. fsqrt (fmul (Fin 2) (Fin ((1 - t js) / t js))))
      = tab [B, 1] (\<lambda>js. Fin (sqrt (2 * ((1 - t js) / t js))))"
  proof (rule tab_cong)
    fix js assume "list_all2 (<) js [B, 1]"
    then obtain b where js: "js = [b, 0]" "b < B" by (auto simp: list_all2_Cons2)
    then have "0 < t js" "t js < 1" using assms(2) by auto
    then have "0 \<le> 2 * ((1 - t js) / t js)" by simp
    then show "fsqrt (fmul (Fin 2) (Fin ((1 - t js) / t js))) = Fin (sqrt (2 * ((1 - t js) / t js)))"
      by simp
  qed
  then show ?thesis
    using eta_t_rt[OF assms(1) nz] by (simp add: sigma_t_of_def rt_def map_t_tab)
qed

text \<open>
  Claim C4, as the code has it. For a batch of translation times strictly between 0 and 1,
  the coefficient the code computes as \<^verbatim>\<open>beta_t * (alpha_dot/alpha_t * beta_t - beta_dot)\<close>
  is \<open>(1 - t) / t\<close> for each example, and \<^verbatim>\<open>sigma_t\<close> is the real number
  \<open>sqrt (2 * (1 - t) / t)\<close>, which is positive.
\<close>

theorem schedule_eta_sigma:
  assumes "0 < B" and "\<forall>b<B. 0 < t [b, 0] \<and> t [b, 0] < 1"
  shows "eta_t_of (rt [B, 1] t) = Inr (rt [B, 1] (\<lambda>js. (1 - t js) / t js))
       \<and> sigma_t_of (rt [B, 1] t) = Inr (rt [B, 1] (\<lambda>js. sqrt (2 * ((1 - t js) / t js))))
       \<and> (\<forall>b<B. 0 < sqrt (2 * ((1 - t [b, 0]) / t [b, 0])))"
proof -
  have nz: "\<forall>b<B. t [b, 0] \<noteq> 0" using assms(2) by fastforce
  have "0 < sqrt (2 * ((1 - t [b, 0]) / t [b, 0]))" if "b < B" for b
    using assms(2) that by simp
  then show ?thesis using eta_t_rt[OF assms(1) nz] sigma_t_rt[OF assms] by simp
qed

theorem schedule_eta_sigma_witness:
  "eta_t_of (rt [1, 1] (\<lambda>js. 1 / 2)) = Inr (rt [1, 1] (\<lambda>js. (1 - 1 / 2) / (1 / 2)))
   \<and> sigma_t_of (rt [1, 1] (\<lambda>js. 1 / 2)) = Inr (rt [1, 1] (\<lambda>js. sqrt (2 * ((1 - 1 / 2) / (1 / 2)))))
   \<and> 0 < sqrt (2 * ((1 - 1 / 2) / (1 / 2)) :: real)"
  using schedule_eta_sigma[of 1 "\<lambda>js. 1 / 2"] by simp

text \<open>
  The claim's own formula \<open>(1 - t) * t\<close> is not what the code computes: at \<open>t = 1/2\<close>
  the code's \<^verbatim>\<open>eta_t\<close> is 1, the formula gives 1/4.
\<close>

theorem eta_not_product_counterexample:
  "eta_t_of (Ar [Ar [Sc (Fin (1 / 2))]]) = Inr (Ar [Ar [Sc (Fin 1)]])
   \<and> Inr (Ar [Ar [Sc (Fin 1)]]) \<noteq> (Inr (Ar [Ar [Sc (Fin ((1 - 1 / 2) * (1 / 2)))]]) :: error + tensor)"
  by (simp add: eta_t_of_def eval_tensor fsub_def)

section \<open>The checks of \<^verbatim>\<open>model_step\<close>\<close>

text \<open>
  Claim C6. When the two masks of the batch have the same shape and, for some example, the
  products \<^verbatim>\<open>res_mask * diffuse_mask\<close> sum to less than 1 over the residues, then
  \<^verbatim>\<open>model_step\<close> raises \<^verbatim>\<open>ValueError('Empty batch encountered')\<close>, whatever the model and
  the other collaborators would return: no loss record is produced.
\<close>

theorem empty_batch_rejected:
  assumes "0 < B" "0 < N"
    and "res_mask b = rt [B, N] rm" "diffuse_mask b = rt [B, N] dm"
    and "e < B" "(\<Sum>n<N. rm [e, n] * dm [e, n]) < 1"
  shows "model_step cfg c b = Inl (ValueError ''Empty batch encountered'')"
proof -
  have "any_t (\<lambda>v. flt v (Fin 1)) (rt [B] (\<lambda>js. \<Sum>n<N. rm (js @ [n]) * dm (js @ [n])))"
    unfolding rt_def any_t_tab using assms(5,6) by (intro exI[of _ "[e]"]) simp
  then show ?thesis
    using assms(1,2) by (simp add: model_step_def assms(3,4) bc_rt_same sum_last_rt)
qed

theorem empty_batch_rejected_witness:
  "model_step cfg0
     \<lparr>model = (\<lambda>b. (trans_1 b, rotmats_1 b)), to_atom37 = (\<lambda>t r. t), calc_rot_vf = (\<lambda>r p. r),
      autograd_grad = (\<lambda>f x. Inr x)\<rparr>
     \<lparr>res_mask = rt [1, 2] (\<lambda>js. 1), diffuse_mask = rt [1, 2] (\<lambda>js. 0),
      trans_t = Sc NaN, rotmats_t = Sc NaN, r3_t = Sc NaN, so3_t = Sc NaN,
      trans_1 = Sc NaN, rotmats_1 = Sc NaN\<rparr>
   = Inl (ValueError ''Empty batch encountered'')"
  by (rule empty_batch_rejected[of 1 2 _ "\<lambda>js. 1" "\<lambda>js. 0" 0]) simp_all

text \<open>
  Claim C7, as the code has it. The test before the return is \<^verbatim>\<open>torch.isnan\<close>: a record that
  \<^verbatim>\<open>model_step\<close> returns has no NaN in its total, and once the three losses add up to a
  total, the step raises \<^verbatim>\<open>ValueError('NaN loss encountered')\<close> exactly when some entry of
  the total is NaN.
\<close>

theorem nan_total_raises:
  "(model_step cfg c b = Inr r \<longrightarrow> \<not> any_t isnan (se3_vf_loss r)) \<and>
   (bc fadd trans_l rots_l = Inr s \<and> bc fadd s aux_l = Inr se3 \<longrightarrow>
      (checked_losses trans_l rots_l aux_l d v w = Inl (ValueError ''NaN loss encountered'')) = any_t isnan se3)"
proof (intro conjI impI)
  assume "model_step cfg c b = Inr r"
  then obtain trans_l rots_l aux_l d v w where "checked_losses trans_l rots_l aux_l d v w = Inr r"
    by (rule model_step_Inr)
  then show "\<not> any_t isnan (se3_vf_loss r)" using checked_losses_Inr by blast
next
  assume "bc fadd trans_l rots_l = Inr s \<and> bc fadd s aux_l = Inr se3"
  then show "(checked_losses trans_l rots_l aux_l d v w = Inl (ValueError ''NaN loss encountered'')) = any_t isnan se3"
    by (simp add: checked_losses_def)
qed

text \<open>
  The theorem at two inputs. A batch of one example with one residue, with collaborators that
  return the reference translation and rotation, the rows of the rotation as atoms, the
  rotation as its own vector field and a zero gradient: \<^verbatim>\<open>model_step\<close> returns a record, whose
  total is 12 and has no NaN. And losses whose total has a NaN: the check raises.
\<close>

theorem nan_total_raises_witness:
  "model_step cfg0 c_rows one_residue
     = Inr \<lparr>trans_loss = rt [1, 1] (\<lambda>js. 3), auxiliary_loss = rt [1, 1] (\<lambda>js. 0),
            rots_vf_loss = rt [1, 1] (\<lambda>js. 9), se3_vf_loss = rt [1, 1] (\<lambda>js. 12),
            diversity_reward = Ar [Sc (Fin 0)], validity_reward = rt [1, 1] (\<lambda>js. 0),
            total_reward = rt [1, 1] (\<lambda>js. 0)\<rparr>
   \<and> \<not> any_t isnan (rt [1, 1] (\<lambda>js. 12))
   \<and> bc fadd (Ar [Sc (Fin 5)]) (Ar [Sc NaN]) = Inr (Ar [Sc NaN])
   \<and> bc fadd (Ar [Sc NaN]) (Sc (Fin 0)) = Inr (Ar [Sc NaN])
   \<and> any_t isnan (Ar [Sc NaN])
   \<and> checked_losses (Ar [Sc (Fin 5)]) (Ar [Sc NaN]) (Sc (Fin 0)) (Ar [Sc (Fin 1)]) (Ar [Sc (Fin 1)]) (Ar [Sc (Fin 3)])
     = Inl (ValueError ''NaN loss encountered'')"
proof -
  let ?r = "\<lparr>trans_loss = rt [1, 1] (\<lambda>js. 3), auxiliary_loss = rt [1, 1] (\<lambda>js. 0),
            rots_vf_loss = rt [1, 1] (\<lambda>js. 9), se3_vf_loss = rt [1, 1] (\<lambda>js. 12),
            diversity_reward = Ar [Sc (Fin 0)], validity_reward = rt [1, 1] (\<lambda>js. 0),
            total_reward = rt [1, 1] (\<lambda>js. 0)\<rparr>"
  note T = nan_total_raises[of cfg0 c_rows one_residue ?r "Ar [Sc (Fin 5)]" "Ar [Sc NaN]"
        "Ar [Sc NaN]" "Sc (Fin 0)" "Ar [Sc NaN]" "Ar [Sc (Fin 1)]" "Ar [Sc (Fin 1)]" "Ar [Sc (Fin 3)]"]
  have r: "model_step cfg0 c_rows one_residue = Inr ?r" by (rule one_model_step)
  have s: "bc fadd (Ar [Sc (Fin 5)]) (Ar [Sc NaN]) = Inr (Ar [Sc NaN])
        \<and> bc fadd (Ar [Sc NaN]) (Sc (Fin 0)) = Inr (Ar [Sc NaN])"
    by (simp add: eval_tensor)
  have n: "any_t isnan (Ar [Sc NaN])"
    by (simp add: any_t_def isnan_def)
  have "\<not> any_t isnan (se3_vf_loss ?r)" using T r by blast
  then have 1: "\<not> any_t isnan (rt [1, 1] (\<lambda>js. 12))" by simp
  have 2: "checked_losses (Ar [Sc (Fin 5)]) (Ar [Sc NaN]) (Sc (Fin 0)) (Ar [Sc (Fin 1)]) (Ar [Sc (Fin 1)]) (Ar [Sc (Fin 3)])
     = Inl (ValueError ''NaN loss encountered'')"
    using T s n by blast
  show ?thesis using r 1 s n 2 by blast
qed

text \<open>
  An infinite total is not NaN: with a translation loss of 5, a rotation loss of \<open>+\<infinity>\<close>
  and no auxiliary loss the check passes and the record with the total \<open>+\<infinity>\<close> is
  returned.
\<close>

theorem infinite_total_returned_counterexample:
  "checked_losses (Ar [Sc (Fin 5)]) (Ar [Sc PInf]) (Sc (Fin 0)) (Ar [Sc (Fin 1)]) (Ar [Sc (Fin 1)]) (Ar [Sc (Fin 3)])
   = Inr \<lparr>trans_loss = Ar [Sc (Fin 5)], auxiliary_loss = Sc (Fin 0), rots_vf_loss = Ar [Sc PInf],
          se3_vf_loss = Ar [Sc PInf], diversity_reward = Ar [Sc (Fin 1)],
          validity_reward = Ar [Sc (Fin 1)], total_reward = Ar [Sc (Fin 3)]\<rparr>"
  by (simp add: checked_losses_def eval_tensor any_t_def isnan_def)

section \<open>The reward\<close>

text \<open>
  Claim C3 says that the reward is one number per example, with the validity term averaged
  over the residues. The code does not do this. For backbone atoms of shape
  \<open>[B, N, 3, 3]\<close>, \<^verbatim>\<open>valid_bonds.float().mean(dim=-1)\<close> averages over the two bonds of each
  residue only: the validity reward has shape \<open>[B, N]\<close>. The diversity reward has shape
  \<open>[B]\<close>, so \<^verbatim>\<open>2.0 * diversity_reward + 1.0 * validity_reward\<close> raises a broadcasting error
  unless \<open>B = N\<close>, \<open>B = 1\<close> or \<open>N = 1\<close>; for one example it is a tensor of shape
  \<open>[1, N]\<close>, one value per residue.
\<close>

theorem reward_is_per_residue:
  fixes g :: "nat list \<Rightarrow> fl" and B N :: nat
  defines "D \<equiv> \<lambda>js. pairwise_mean (atom_points N (\<lambda>ks. g (hd js # ks)))"
    and "V \<equiv> \<lambda>js. fmean [bond_valid (bond_length g js 0), bond_valid (bond_length g js 1)]"
  assumes "0 < B" "0 < N"
  shows "diversity_reward_of (tab [B, N, 3, 3] g) = Inr (tab [B] D)
       \<and> validity_reward_of (tab [B, N, 3, 3] g) = Inr (tab [B, N] V)
       \<and> (B \<noteq> N \<and> B \<noteq> 1 \<and> N \<noteq> 1 \<longrightarrow> reward_of (tab [B] D) (tab [B, N] V) = Inl RuntimeError)
       \<and> (B = 1 \<longrightarrow> reward_of (tab [B] D) (tab [B, N] V)
             = Inr (tab [1, N] (\<lambda>js. fadd (fmul (Fin 2) (D [0])) (fmul (Fin 1) (V js)))))"
proof -
  have "tab [1, N] (\<lambda>js. fadd (fmul (Fin 2) (D (drop 1 (clip [1, 1] js)))) (fmul (Fin 1) (V (clip [1, N] js))))
      = tab [1, N] (\<lambda>js. fadd (fmul (Fin 2) (D [0])) (fmul (Fin 1) (V js)))"
    by (rule tab_cong) (auto simp: list_all2_Cons2 clip_def)
  then show ?thesis
    using assms(3,4) diversity_tab[OF assms(3,4), of g] validity_tab[OF assms(3,4), of g]
    by (auto simp: reward_tab D_def V_def)
qed

theorem reward_is_per_residue_witness:
  "validity_reward_of (tab [2, 3, 3, 3] (\<lambda>js. Fin 0))
     = Inr (tab [2, 3] (\<lambda>js. fmean [bond_valid (bond_length (\<lambda>js. Fin 0) js 0),
                                     bond_valid (bond_length (\<lambda>js. Fin 0) js 1)]))
   \<and> reward_of (tab [2] (\<lambda>js. pairwise_mean (atom_points 3 (\<lambda>ks. Fin 0))))
        (tab [2, 3] (\<lambda>js. fmean [bond_valid (bond_length (\<lambda>js. Fin 0) js 0),
                                  bond_valid (bond_length (\<lambda>js. Fin 0) js 1)]))
     = Inl RuntimeError"
  using reward_is_per_residue[of 2 3 "\<lambda>js. Fin 0"] by simp

text \<open>
  Claim C10, as the code has it. For finite coordinates the diversity reward of each
  example is the mean of all pairwise distances of its atoms; multiplying every coordinate
  by 2 doubles it. It is never negative, and the doubled value is strictly larger as soon
  as two atoms of the example are at different positions.
\<close>

theorem diversity_doubles:
  assumes "0 < B" "0 < N"
  shows "diversity_reward_of (rt [B, N, 3, 3] x)
           = Inr (rt [B] (\<lambda>js. pmean (rpoints N (\<lambda>ks. x (hd js # ks)))))
       \<and> diversity_reward_of (map_t (fmul (Fin 2)) (rt [B, N, 3, 3] x))
           = Inr (rt [B] (\<lambda>js. 2 * pmean (rpoints N (\<lambda>ks. x (hd js # ks)))))
       \<and> (\<forall>b<B. 0 \<le> pmean (rpoints N (\<lambda>ks. x (b # ks)))
             \<and> ((\<exists>p\<in>set (rpoints N (\<lambda>ks. x (b # ks))). \<exists>q\<in>set (rpoints N (\<lambda>ks. x (b # ks))). p \<noteq> q)
                  \<longrightarrow> pmean (rpoints N (\<lambda>ks. x (b # ks))) < 2 * pmean (rpoints N (\<lambda>ks. x (b # ks)))))"
proof -
  note 1 = diversity_rt[OF assms]
  have 2: "map_t (fmul (Fin 2)) (rt [B, N, 3, 3] x) = rt [B, N, 3, 3] (\<lambda>js. 2 * x js)"
    by (simp add: rt_def map_t_tab)
  have 3: "pmean (rpoints N (\<lambda>ks. x (b # ks))) < 2 * pmean (rpoints N (\<lambda>ks. x (b # ks)))"
    if "p \<in> set (rpoints N (\<lambda>ks. x (b # ks)))" "q \<in> set (rpoints N (\<lambda>ks. x (b # ks)))" "p \<noteq> q"
    for b p q
  proof -
    have "length p = length q" using that(1,2) by (auto simp: rpoints_def)
    then have "0 < pmean (rpoints N (\<lambda>ks. x (b # ks)))" using that by (intro pmean_pos)
    then show ?thesis by simp
  qed
  show ?thesis
    using 1[of x] 1[of "\<lambda>js. 2 * x js"] 3
    by (auto simp: 2 rpoints_scale pmean_scale pmean_nonneg)
qed

theorem diversity_doubles_witness:
  "diversity_reward_of (map_t (fmul (Fin 2)) (rt [1, 1, 3, 3] (\<lambda>js. real (js ! 2))))
     = Inr (rt [1] (\<lambda>js. 2 * pmean (rpoints 1 (\<lambda>ks. real ((hd js # ks) ! 2)))))
   \<and> pmean (rpoints 1 (\<lambda>ks. real ((0 # ks) ! 2))) < 2 * pmean (rpoints 1 (\<lambda>ks. real ((0 # ks) ! 2)))"
proof -
  have "\<exists>p\<in>set (rpoints 1 (\<lambda>ks. real ((0 # ks) ! 2))). \<exists>q\<in>set (rpoints 1 (\<lambda>ks. real ((0 # ks) ! 2))). p \<noteq> q"
    by (auto simp: rpoints_def all_idx_1_3)
  then show ?thesis
    using diversity_doubles[of 1 1 "\<lambda>js. real (js ! 2)"] by simp
qed

text \<open>
  When all atoms of a structure coincide, all distances are 0 and stay 0: the diversity
  reward of the scaled structure is the same, not larger.
\<close>

theorem coincident_atoms_counterexample:
  "diversity_reward_of (rt [1, 1, 3, 3] (\<lambda>js. 0)) = Inr (Ar [Sc (Fin 0)])
   \<and> diversity_reward_of (map_t (fmul (Fin 2)) (rt [1, 1, 3, 3] (\<lambda>js. 0))) = Inr (Ar [Sc (Fin 0)])"
proof -
  have "pmean (rpoints 1 (\<lambda>ks. 0)) = 0"
    by (simp add: pmean_def rpoints_def all_idx_1_3 dist3_def)
  then have a: "diversity_reward_of (rt [1, 1, 3, 3] (\<lambda>js. 0)) = Inr (rt [1] (\<lambda>js. 0))"
    using diversity_rt[of 1 1 "\<lambda>js. 0"] by simp
  have b: "map_t (fmul (Fin 2)) (rt [1, 1, 3, 3] (\<lambda>js. 0)) = rt [1, 1, 3, 3] (\<lambda>js. 0)"
    by (simp add: rt_def map_t_tab)
  have c: "rt [1] (\<lambda>js. 0) = Ar [Sc (Fin 0)]"
    by (simp add: rt_def tab.simps)
  show ?thesis unfolding b a c by simp
qed

section \<open>The adjoint solver\<close>

text \<open>
  Claim C1 describes the update \<open>a \<leftarrow> a - dt * (J\<^sub>b a)\<close> with a 3 by 3 Jacobian per residue, as
  the comment in the code does. The code does not compute it. \<^verbatim>\<open>torch.autograd.grad\<close> of the
  summed drift returns a tensor of the shape of the state, \<open>[B, N, 3]\<close>, and
  \<^verbatim>\<open>einsum('...ijm,...j->...i', grad_b, a_t)\<close> reads the axes of that tensor as \<open>i, j, m\<close>: it
  matches the residue axis of the gradient (size \<open>N\<close>) with the coordinate axis of the
  costate (size 3). So for every state of shape \<open>[B, N, 3]\<close> with \<open>N\<close> other than 1 and 3 the
  solver raises in the first pass of its loop, whatever the drift is.
\<close>

theorem solver_raises:
  assumes "0 < B" "0 < N" "N \<noteq> 1" "N \<noteq> 3"
    and "\<forall>f x g. autograd_grad c f x = Inr g \<longrightarrow> shape g = shape x"
  shows "\<exists>e. solve_adjoint_state c drift (tab [B, N, 3] x) t (tab [B, N] m) = Inl e"
  using assms by (rule solver_raises_gen)

theorem solver_raises_witness:
  "\<exists>e. solve_adjoint_state c_zero (\<lambda>x t. Inr x) (rt [1, 2, 3] (\<lambda>js. 0)) (rt [1, 1] (\<lambda>js. 1 / 2))
         (rt [1, 2] (\<lambda>js. 1)) = Inl e"
proof -
  have "\<forall>f x g. autograd_grad c_zero f x = Inr g \<longrightarrow> shape g = shape x"
    by (auto simp: c_zero_def zero_grad_def shape_map_t)
  then show ?thesis
    unfolding rt_def by (intro solver_raises) simp_all
qed

text \<open>
  Claim C9 asks for the masked terminal value \<open>-1\<close> when the drift is zero. The defect above
  does not depend on the drift: with the zero drift and its zero gradient the solver raises
  the broadcasting error of \<^verbatim>\<open>einsum\<close> instead of returning a costate.
\<close>

theorem zero_drift_solver_raises:
  assumes "0 < B" "0 < N" "N \<noteq> 1" "N \<noteq> 3"
    and "\<forall>f x. autograd_grad c f x = Inr (map_t (\<lambda>v. Fin 0) x)"
  shows "solve_adjoint_state c zero_drift (tab [B, N, 3] x) t (tab [B, N] m) = Inl RuntimeError"
proof -
  obtain p ps where ps: "zip (butlast (linspace 1 0 20)) (tl (linspace 1 0 20)) = p # ps"
    using linspace_pairs by (cases "zip (butlast (linspace 1 0 20)) (tl (linspace 1 0 20))") auto
  obtain tc tn where p: "p = (tc, tn)" by (cases p)
  show ?thesis
    using assms(1,2)
    by (simp add: solve_adjoint_state_def terminal_costate_tab Let_def ps p
        zero_adjoint_step_raises[OF assms])
qed

theorem zero_drift_solver_raises_witness:
  "solve_adjoint_state c_zero zero_drift (rt [1, 2, 3] (\<lambda>js. 0)) (rt [1, 1] (\<lambda>js. 1 / 2))
     (rt [1, 2] (\<lambda>js. 1)) = Inl RuntimeError"
proof -
  have "\<forall>f x. autograd_grad c_zero f x = Inr (map_t (\<lambda>v. Fin 0) x)"
    by (simp add: c_zero_def zero_grad_def)
  then show ?thesis
    unfolding rt_def by (intro zero_drift_solver_raises) simp_all
qed

section \<open>The translation loss\<close>




section \<open>The auxiliary loss\<close>

text \<open>
  Claim C8, amended. For finite inputs of the documented shapes whose masks pass the
  non-empty check, and for the reward tensor as line 167 returns it from a diversity of shape
  \<open>[B]\<close> and a validity of shape \<open>[B, N]\<close>: when \<^verbatim>\<open>aux_loss_weight\<close> is positive and the
  translation time of the first example, \<^verbatim>\<open>r3_t[0, 0]\<close>, exceeds 1/2, the auxiliary loss is the
  tensor of the reward's shape whose entry \<open>[i, j]\<close> is the masked backbone regression loss
  of example \<open>j\<close> (of the one example when \<open>B = 1\<close>) times \<^verbatim>\<open>aux_loss_weight\<close> times the
  reward entry \<open>[i, j]\<close>, clamped to at most 5; otherwise it is the number 0.
\<close>

theorem auxiliary_loss_value:
  assumes "0 < B" "0 < N" "3 \<le> A"
    and "r3_t b = rt [B, 1] t"
    and "to_atom37 c (trans_1 b) (rotmats_1 b) = rt [B, N, A, 3] G"
    and "\<forall>e<B. 1 \<le> (\<Sum>n<N. m [e, n])"
    and "reward_of (rt [B] d) (rt [B, N] v) = Inr reward"
  shows "auxiliary_loss_of cfg c b (rt [B, N, 3, 3] P) reward (rt [B, N] m)
       = (if 0 < aux_loss_weight cfg \<and> 1 / 2 < t [0, 0]
          then Inr (rt [B, bdim B N] (\<lambda>js. min 5 (bb_regression N (wrap B (js ! 1)) G P m
                                              * aux_loss_weight cfg * reward_entries B N d v js)))
          else Inr (Sc (Fin 0)))"
proof -
  have sh: "B = N \<or> B = 1 \<or> N = 1" and rw: "reward = rt [B, bdim B N] (reward_entries B N d v)"
    using assms(7) unfolding reward_rt[OF assms(1,2)] by (auto split: if_splits)
  have k: "0 < bdim B N" "bdim B N = B \<or> B = 1"
    using sh assms(1,2) by (auto simp: bdim_def)
  show ?thesis
    unfolding rw by (rule auxiliary_loss2_rt[OF assms(1,2,3) k assms(4,5,6)])
qed

text \<open>
  The theorem at one example with two residues, reference atoms at 1 and predicted atoms at
  0 (regression loss 3), diversity \<open>1/24\<close> and validities 0 and \<open>1/2\<close>: the reward is
  \<open>[[1/12, 7/12]]\<close> and the auxiliary loss is \<open>[[1/4, 7/4]]\<close>.
\<close>

theorem auxiliary_loss_value_witness:
  "reward_of (rt [1] (\<lambda>js. 1 / 24)) (rt [1, 2] half_valid)
     = Inr (rt [1, 2] (reward_entries 1 2 (\<lambda>js. 1 / 24) half_valid))
   \<and> reward_entries 1 2 (\<lambda>js. 1 / 24) half_valid [0, 0] = 1 / 12
   \<and> reward_entries 1 2 (\<lambda>js. 1 / 24) half_valid [0, 1] = 7 / 12
   \<and> bb_regression 2 0 (\<lambda>js. 1) (\<lambda>js. 0) (\<lambda>js. 1) = 3
   \<and> auxiliary_loss_of cfg0 c_rows two_residues (rt [1, 2, 3, 3] (\<lambda>js. 0))
        (rt [1, 2] (reward_entries 1 2 (\<lambda>js. 1 / 24) half_valid)) (rt [1, 2] (\<lambda>js. 1))
      = Inr (rt [1, 2] (\<lambda>js. min 5 (bb_regression 2 (wrap 1 (js ! 1)) (\<lambda>js. 1) (\<lambda>js. 0) (\<lambda>js. 1)
                                       * aux_loss_weight cfg0 * reward_entries 1 2 (\<lambda>js. 1 / 24) half_valid js)))
   \<and> rt [1, 2] (\<lambda>js. min 5 (bb_regression 2 (wrap 1 (js ! 1)) (\<lambda>js. 1) (\<lambda>js. 0) (\<lambda>js. 1)
                                       * aux_loss_weight cfg0 * reward_entries 1 2 (\<lambda>js. 1 / 24) half_valid js))
      = rt [1, 2] (\<lambda>js. if js ! 1 = 0 then 1 / 4 else 7 / 4)"
proof -
  have b: "(0::nat) < 1" "(0::nat) < 2" "(3::nat) \<le> 3" by simp_all
  have rw: "reward_of (rt [1] (\<lambda>js. 1 / 24)) (rt [1, 2] half_valid)
     = Inr (rt [1, 2] (reward_entries 1 2 (\<lambda>js. 1 / 24) half_valid))"
    using reward_rt[OF b(1,2), of "\<lambda>js. 1 / 24" half_valid] by simp
  have e: "reward_entries 1 2 (\<lambda>js. 1 / 24) half_valid [0, 0] = 1 / 12"
    "reward_entries 1 2 (\<lambda>js. 1 / 24) half_valid [0, 1] = 7 / 12"
    by (simp_all add: reward_entries_def half_valid_def wrap_def)
  have t: "r3_t two_residues = rt [1, 1] (\<lambda>js. 9 / 10)" by (simp add: two_residues_def)
  have g: "to_atom37 c_rows (trans_1 two_residues) (rotmats_1 two_residues) = rt [1, 2, 3, 3] (\<lambda>js. 1)"
    by (simp add: c_rows_def two_residues_def)
  have m: "\<forall>e<1::nat. 1 \<le> (\<Sum>n<2::nat. (\<lambda>js. 1 :: real) [e, n])" by simp
  have "auxiliary_loss_of cfg0 c_rows two_residues (rt [1, 2, 3, 3] (\<lambda>js. 0))
        (rt [1, 2] (reward_entries 1 2 (\<lambda>js. 1 / 24) half_valid)) (rt [1, 2] (\<lambda>js. 1))
      = (if 0 < aux_loss_weight cfg0 \<and> 1 / 2 < (\<lambda>js. 9 / 10 :: real) [0, 0]
         then Inr (rt [1, bdim 1 2] (\<lambda>js. min 5 (bb_regression 2 (wrap 1 (js ! 1)) (\<lambda>js. 1) (\<lambda>js. 0) (\<lambda>js. 1)
                                       * aux_loss_weight cfg0 * reward_entries 1 2 (\<lambda>js. 1 / 24) half_valid js)))
         else Inr (Sc (Fin 0)))"
    by (rule auxiliary_loss_value[OF b t g m rw])
  then have a: "auxiliary_loss_of cfg0 c_rows two_residues (rt [1, 2, 3, 3] (\<lambda>js. 0))
        (rt [1, 2] (reward_entries 1 2 (\<lambda>js. 1 / 24) half_valid)) (rt [1, 2] (\<lambda>js. 1))
      = Inr (rt [1, 2] (\<lambda>js. min 5 (bb_regression 2 (wrap 1 (js ! 1)) (\<lambda>js. 1) (\<lambda>js. 0) (\<lambda>js. 1)
                                       * aux_loss_weight cfg0 * reward_entries 1 2 (\<lambda>js. 1 / 24) half_valid js)))"
    by (simp add: cfg0_def)
  have v: "rt [1, 2] (\<lambda>js. min 5 (bb_regression 2 (wrap 1 (js ! 1)) (\<lambda>js. 1) (\<lambda>js. 0) (\<lambda>js. 1)
                                       * aux_loss_weight cfg0 * reward_entries 1 2 (\<lambda>js. 1 / 24) half_valid js))
      = rt [1, 2] (\<lambda>js. if js ! 1 = 0 then 1 / 4 else 7 / 4)"
    using bb_regression_two
    by (intro rt_cong) (auto simp: list_all2_Cons2 wrap_def cfg0_def reward_entries_def half_valid_def less_Suc_eq)
  show ?thesis using rw e bb_regression_two a v by blast
qed

text \<open>
  Two inputs where the claim's words and the code differ. With \<^verbatim>\<open>aux_loss_weight = 2\<close>, one
  example with one residue and the reward \<open>1/6\<close>, the loss is 1, twice the reward-weighted
  regression loss 1/2. And in a batch of two examples with the times 2/5 and 9/10 the
  auxiliary loss is 0, although the time of the second example exceeds 1/2: only the first
  example's time is tested.
\<close>

theorem auxiliary_loss_counterexample:
  "auxiliary_loss_of cfg2 c_zero (atoms_batch 1 (\<lambda>js. 9 / 10)) (rt [1, 1, 3, 3] (\<lambda>js. 0))
     (rt [1, 1] (\<lambda>js. 1 / 6)) (rt [1, 1] (\<lambda>js. 1))
   = Inr (rt [1, 1] (\<lambda>js. 1))
   \<and> min 5 (bb_regression 1 0 (\<lambda>js. 1) (\<lambda>js. 0) (\<lambda>js. 1) * (1 / 6)) = 1 / 2
   \<and> auxiliary_loss_of cfg0 c_zero (atoms_batch 2 (\<lambda>js. if js ! 0 = 0 then 2 / 5 else 9 / 10))
        (rt [2, 1, 3, 3] (\<lambda>js. 0)) (rt [2, 2] (\<lambda>js. 1 / 6)) (rt [2, 1] (\<lambda>js. 1))
     = Inr (Sc (Fin 0))"
proof -
  have 1: "auxiliary_loss_of cfg2 c_zero (atoms_batch 1 (\<lambda>js. 9 / 10)) (rt [1, 1, 3, 3] (\<lambda>js. 0))
     (rt [1, 1] (\<lambda>js. 1 / 6)) (rt [1, 1] (\<lambda>js. 1)) = Inr (rt [1, 1] (\<lambda>js. 1))"
    using auxiliary_loss2_rt[of 1 1 3 1 "atoms_batch 1 (\<lambda>js. 9 / 10)" "\<lambda>js. 9 / 10" c_zero "\<lambda>js. 1"
        "\<lambda>js. 1" cfg2 "\<lambda>js. 0" "\<lambda>js. 1 / 6"] bb_regression_ex
    by (simp add: atoms_batch_def c_zero_def cfg2_def wrap_def)
  have 2: "auxiliary_loss_of cfg0 c_zero (atoms_batch 2 (\<lambda>js. if js ! 0 = 0 then 2 / 5 else 9 / 10))
        (rt [2, 1, 3, 3] (\<lambda>js. 0)) (rt [2, 2] (\<lambda>js. 1 / 6)) (rt [2, 1] (\<lambda>js. 1)) = Inr (Sc (Fin 0))"
    using auxiliary_loss2_rt[of 2 1 3 2 "atoms_batch 2 (\<lambda>js. if js ! 0 = 0 then 2 / 5 else 9 / 10)"
        "\<lambda>js. if js ! 0 = 0 then 2 / 5 else 9 / 10" c_zero "\<lambda>js. 1"
        "\<lambda>js. 1" cfg0 "\<lambda>js. 0" "\<lambda>js. 1 / 6"]
    by (simp add: atoms_batch_def c_zero_def cfg0_def)
  show ?thesis using 1 2 bb_regression_ex by simp
qed

section \<open>The masking invariant\<close>




end
